theory Spec2Isabelle
  imports Main "HOL-Library.Char_ord" "HOL-Library.List_Lexorder" "HOL-Library.Sublist"
begin

section \<open>Python values used by sfputil\<close>

text \<open>
  The EEPROM data handled by \<^verbatim>\<open>sfputil/main.py\<close> is a nested Python dictionary whose
  keys are field names and whose values are scalars (strings or integers) or nested
  dictionaries. A dictionary is an association list; the code only ever reads it
  through \<^verbatim>\<open>len\<close>, \<^verbatim>\<open>sorted\<close>, indexing and a filtering comprehension,
  so insertion order is never observed. Strings are compared as Python compares them:
  lexicographically by character code, a proper prefix being smaller.
\<close>

datatype scalar = SStr string | SInt int

datatype pyval = Scalar scalar | Dict "(string \<times> pyval) list"

type_synonym dict = "(string \<times> pyval) list"

datatype py_error = AttributeError | TypeError | ValueError

text \<open>Decimal rendering of an integer, as \<^verbatim>\<open>str\<close> and the \<^verbatim>\<open>%d\<close>, \<^verbatim>\<open>%s\<close> formats do.\<close>

function digits_of :: "nat \<Rightarrow> string" where
  "digits_of n =
     (if n < 10 then [''0123456789'' ! n]
      else digits_of (n div 10) @ [''0123456789'' ! (n mod 10)])"
  by pat_completeness auto
termination
  by (relation "measure id") auto

declare digits_of.simps [simp del]

definition str_int :: "int \<Rightarrow> string" where
  "str_int i = (if i < 0 then ''-'' @ digits_of (nat (- i)) else digits_of (nat i))"

fun str :: "scalar \<Rightarrow> string" where
  "str (SStr s) = s"
| "str (SInt i) = str_int i"

section \<open>Methods for printing\<close>

subsection \<open>Raw bytes\<close>

text \<open>
  \<^verbatim>\<open>raw_bytes_to_string_pretty\<close>: the body of the loop over \<^verbatim>\<open>range(0, len(raw_bytes))\<close>
  is \<open>raw_bytes_step\<close>; the index is always below the length, so the read is in range.
\<close>

definition raw_bytes_step :: "string list \<Rightarrow> string \<Rightarrow> nat \<Rightarrow> string" where
  "raw_bytes_step raw_bytes hexstr i =
     (let hexstr = (if i > 0 \<and> i mod 8 = 0 then hexstr @ '' '' else hexstr);
          hexstr = (if i > 0 \<and> i mod 16 = 0 then hexstr @ ''\<newline>'' else hexstr);
          hexstr = hexstr @ raw_bytes ! i
      in hexstr @ '' '')"

definition raw_bytes_to_string_pretty :: "string list \<Rightarrow> string" where
  "raw_bytes_to_string_pretty raw_bytes =
     foldl (raw_bytes_step raw_bytes) '''' [0..<length raw_bytes]"

subsection \<open>Dictionaries\<close>

text \<open>
  Both dictionary printers take the least key (\<^verbatim>\<open>sorted(in_dict)[0]\<close>), print its entry,
  and recurse on the dictionary without that key. The recursion is not structural; it
  terminates because every call is on a dictionary of smaller size.
\<close>

definition dict_size :: "dict \<Rightarrow> nat" where
  "dict_size d = size_list (size_prod (\<lambda>_. 0) size) d"

lemma least_key_in: "d \<noteq> [] \<Longrightarrow> hd (sort (map fst d)) \<in> fst ` set d"
proof -
  assume "d \<noteq> []"
  then have "sort (map fst d) \<noteq> []"
    by (metis length_sort length_map length_0_conv)
  then have "hd (sort (map fst d)) \<in> set (sort (map fst d))"
    by (rule hd_in_set)
  then show ?thesis by simp
qed

lemma least_key_lookup:
  assumes "d \<noteq> []"
  shows "(hd (sort (map fst d)), the (map_of d (hd (sort (map fst d))))) \<in> set d"
proof -
  from least_key_in [OF assms] have "map_of d (hd (sort (map fst d))) \<noteq> None"
    by (simp add: map_of_eq_None_iff)
  then show ?thesis by (auto dest: map_of_SomeD)
qed

lemma dict_size_filter_le: "dict_size (filter P d) \<le> dict_size d"
  unfolding dict_size_def by (induction d) auto

lemma dict_size_remove:
  "(k, v) \<in> set d \<Longrightarrow> dict_size (filter (\<lambda>p. fst p \<noteq> k) d) < dict_size d"
proof (induction d)
  case Nil
  then show ?case by simp
next
  case (Cons a d)
  show ?case
  proof (cases "fst a = k")
    case True
    have "dict_size (filter (\<lambda>p. fst p \<noteq> k) d) \<le> dict_size d"
      by (rule dict_size_filter_le)
    with True show ?thesis by (simp add: dict_size_def)
  next
    case False
    with Cons show ?thesis by (auto simp: dict_size_def)
  qed
qed

lemma remove_key_pred: "(\<lambda>(i :: string, _ :: pyval). i \<noteq> k) = (\<lambda>p. fst p \<noteq> k)"
  by (simp add: fun_eq_iff)

lemma dict_size_remove_key:
  "(k, v) \<in> set d \<Longrightarrow> dict_size (filter (\<lambda>(i, _). i \<noteq> k) d) < dict_size d"
  using dict_size_remove [of k v d] by (simp add: remove_key_pred)

lemma dict_size_nested: "(k, Dict d') \<in> set d \<Longrightarrow> dict_size d' < dict_size d"
  unfolding dict_size_def by (induction d) auto

function dict_to_string_pretty :: "dict \<Rightarrow> nat \<Rightarrow> string" where
  "dict_to_string_pretty in_dict indent =
    (if length in_dict = 0 then ''''
     else
       let key = hd (sort (map fst in_dict));
           val = the (map_of in_dict key);
           out =
             (case val of
                Dict d \<Rightarrow>
                  (replicate indent (CHR 0x09) @ key @ '':\<newline>'')
                    @ dict_to_string_pretty d (indent + 1)
              | Scalar s \<Rightarrow>
                  replicate indent (CHR 0x09) @ key @ '': '' @ str s @ ''\<newline>'')
       in out @ dict_to_string_pretty (filter (\<lambda>(i, _). i \<noteq> key) in_dict) indent)"
  by pat_completeness auto
termination
proof (relation "measure (\<lambda>(d, _). dict_size d)", goal_cases)
  case 1
  show ?case by simp
next
  case (2 in_dict indent key v d)
  then have "in_dict \<noteq> []" by auto
  from least_key_lookup [OF this] 2 show ?case
    by (auto intro: dict_size_nested)
next
  case (3 in_dict indent key v out)
  then have "in_dict \<noteq> []" by auto
  from least_key_lookup [OF this]
  have "dict_size (filter (\<lambda>(i, _). i \<noteq> hd (sort (map fst in_dict))) in_dict)
          < dict_size in_dict"
    by (rule dict_size_remove_key)
  with 3 show ?case by simp
qed

declare dict_to_string_pretty.simps [simp del]

text \<open>
  \<^verbatim>\<open>dict_to_string_comma_separated\<close>. The flag \<^verbatim>\<open>first\<close> is false in every call on the
  rest of the dictionary: the source sets it to false when it was true and leaves it
  false otherwise. A key of the exclusion list ends the call with the empty string.
\<close>

function dict_to_string_comma_separated ::
    "dict \<Rightarrow> string list \<Rightarrow> string \<Rightarrow> bool \<Rightarrow> string" where
  "dict_to_string_comma_separated in_dict key_blacklist elemprefix first =
    (if length in_dict = 0 then ''''
     else
       let key = hd (sort (map fst in_dict));
           val = the (map_of in_dict key)
       in if key \<in> set key_blacklist then ''''
          else
            let out = (if \<not> first then '','' else '''');
                out = out @
                  (case val of
                     Dict d \<Rightarrow>
                       dict_to_string_comma_separated d key_blacklist (key @ ''.'') True
                   | Scalar s \<Rightarrow> (elemprefix @ key) @ '':'' @ str s)
            in out @ dict_to_string_comma_separated
                 (filter (\<lambda>(i, _). i \<noteq> key) in_dict) key_blacklist elemprefix False)"
  by pat_completeness auto
termination
proof (relation "measure (\<lambda>(d, _, _, _). dict_size d)", goal_cases)
  case 1
  show ?case by simp
next
  case (2 in_dict key_blacklist elemprefix first key v out d)
  then have "in_dict \<noteq> []" by auto
  from least_key_lookup [OF this] 2 show ?case
    by (auto intro: dict_size_nested)
next
  case (3 in_dict key_blacklist elemprefix first key v out out2)
  then have "in_dict \<noteq> []" by auto
  from least_key_lookup [OF this]
  have "dict_size (filter (\<lambda>(i, _). i \<noteq> hd (sort (map fst in_dict))) in_dict)
          < dict_size in_dict"
    by (rule dict_size_remove_key)
  with 3 show ?case by simp
qed

declare dict_to_string_comma_separated.simps [simp del]

text \<open>The recursive equations, for evaluating the printers on concrete data.\<close>

lemmas eval_simps =
  digits_of.simps dict_to_string_pretty.simps dict_to_string_comma_separated.simps

section \<open>Getting and printing SFP data\<close>

subsection \<open>Exceptions and dynamically typed arguments\<close>

definition bind_err :: "py_error + 'a \<Rightarrow> ('a \<Rightarrow> py_error + 'b) \<Rightarrow> py_error + 'b" where
  "bind_err m f = (case m of Inl e \<Rightarrow> Inl e | Inr x \<Rightarrow> f x)"

text \<open>
  \<^verbatim>\<open>x.get(k)\<close> on an object that may be \<^verbatim>\<open>None\<close>, a scalar or a dictionary: only a
  dictionary has the method.
\<close>

definition py_get :: "pyval option \<Rightarrow> string \<Rightarrow> py_error + pyval option" where
  "py_get obj k =
     (case obj of
        None \<Rightarrow> Inl AttributeError
      | Some (Scalar _) \<Rightarrow> Inl AttributeError
      | Some (Dict d) \<Rightarrow> Inr (map_of d k))"

text \<open>
  The two dictionary printers called on an arbitrary object. \<^verbatim>\<open>len\<close> fails on
  \<^verbatim>\<open>None\<close> and on an integer; the empty string has length zero and prints as the empty
  string; a non-empty string fails at \<^verbatim>\<open>in_dict[key]\<close>, whose index is a string.
\<close>

definition dict_to_string_pretty_obj :: "pyval option \<Rightarrow> nat \<Rightarrow> py_error + string" where
  "dict_to_string_pretty_obj obj indent =
     (case obj of
        None \<Rightarrow> Inl TypeError
      | Some (Scalar (SInt _)) \<Rightarrow> Inl TypeError
      | Some (Scalar (SStr s)) \<Rightarrow> (if length s = 0 then Inr '''' else Inl TypeError)
      | Some (Dict d) \<Rightarrow> Inr (dict_to_string_pretty d indent))"

definition dict_to_string_comma_separated_obj ::
    "pyval option \<Rightarrow> string list \<Rightarrow> string \<Rightarrow> py_error + string" where
  "dict_to_string_comma_separated_obj obj key_blacklist elemprefix =
     (case obj of
        None \<Rightarrow> Inl TypeError
      | Some (Scalar (SInt _)) \<Rightarrow> Inl TypeError
      | Some (Scalar (SStr s)) \<Rightarrow> (if length s = 0 then Inr '''' else Inl TypeError)
      | Some (Dict d) \<Rightarrow> Inr (dict_to_string_comma_separated d key_blacklist elemprefix True))"

text \<open>
  \<^verbatim>\<open>int(s)\<close> of Python 3 on an ASCII string: surrounding whitespace is stripped, one
  sign may come first, and the rest is decimal digits, single underscores allowed
  between digits. Everything else raises \<^verbatim>\<open>ValueError\<close>.
\<close>

definition py_isspace :: "char \<Rightarrow> bool" where
  "py_isspace c = (c \<in> set [CHR '' '', CHR 0x09, CHR 0x0A, CHR 0x0B, CHR 0x0C, CHR 0x0D])"

definition py_strip :: "string \<Rightarrow> string" where
  "py_strip s = rev (dropWhile py_isspace (rev (dropWhile py_isspace s)))"

definition digit_value :: "char \<Rightarrow> nat option" where
  "digit_value c = map_of (zip ''0123456789'' [0, 1, 2, 3, 4, 5, 6, 7, 8, 9]) c"

fun py_digits :: "nat \<Rightarrow> string \<Rightarrow> nat option" where
  "py_digits acc [] = Some acc"
| "py_digits acc (c # cs) =
     (if c = CHR ''_'' then
        (case cs of
           [] \<Rightarrow> None
         | d # _ \<Rightarrow> (if digit_value d = None then None else py_digits acc cs))
      else
        (case digit_value c of
           None \<Rightarrow> None
         | Some v \<Rightarrow> py_digits (10 * acc + v) cs))"

definition py_int :: "string \<Rightarrow> py_error + int" where
  "py_int s =
     (let t = py_strip s;
          neg = (case t of c # _ \<Rightarrow> c = CHR ''-'' | [] \<Rightarrow> False);
          body = (case t of
                    c # r \<Rightarrow> (if c = CHR ''-'' \<or> c = CHR ''+'' then r else t)
                  | [] \<Rightarrow> t)
      in case body of
           [] \<Rightarrow> Inl ValueError
         | c # _ \<Rightarrow>
             (if digit_value c = None then Inl ValueError
              else case py_digits 0 body of
                     None \<Rightarrow> Inl ValueError
                   | Some n \<Rightarrow> Inr (if neg then - int n else int n)))"

subsection \<open>The platform plugin\<close>

text \<open>
  The global \<^verbatim>\<open>platform_sfputil\<close> is only read; it is passed to every function that
  uses it. Its methods are the hardware collaborator of the tool and are taken as
  functions that return.
\<close>

record sfputil =
  is_logical_port :: "string \<Rightarrow> bool"
  get_logical_to_physical :: "string \<Rightarrow> int list"
  get_presence :: "int \<Rightarrow> bool"
  get_eeprom_dict :: "int \<Rightarrow> dict option"
  get_eeprom_raw :: "int \<Rightarrow> string list option"

subsection \<open>Port names\<close>

definition get_sfp_eeprom_status_string :: "scalar \<Rightarrow> bool \<Rightarrow> string" where
  "get_sfp_eeprom_status_string port port_sfp_eeprom_status =
     (if port_sfp_eeprom_status then str port @ '': SFP EEPROM detected''
      else str port @ '': SFP EEPROM not detected'')"

text \<open>
  \<^verbatim>\<open>get_physical_port_name\<close> compares its first two arguments with \<^verbatim>\<open>==\<close>, which in
  Python is false for a string and an integer; \<^verbatim>\<open>%d\<close> needs an integer and \<^verbatim>\<open>+\<close>
  needs a string on the left.
\<close>

definition get_physical_port_name :: "scalar \<Rightarrow> scalar \<Rightarrow> bool \<Rightarrow> py_error + scalar" where
  "get_physical_port_name logical_port physical_port ganged =
     (if logical_port = physical_port then Inr logical_port
      else if ganged then
        (case physical_port of
           SStr _ \<Rightarrow> Inl TypeError
         | SInt p \<Rightarrow>
             (case logical_port of
                SInt _ \<Rightarrow> Inl TypeError
              | SStr l \<Rightarrow> Inr (SStr (l @ '':'' @ str_int p @ '' (ganged)''))))
      else Inr logical_port)"

text \<open>
  Functions that call \<^verbatim>\<open>click.echo\<close> return the echoed lines with their value. The
  value of the resolver is \<^verbatim>\<open>None\<close> or a list of physical ports.
\<close>

definition logical_port_name_to_physical_port_list ::
    "sfputil \<Rightarrow> string \<Rightarrow> py_error + (string list \<times> int list option)" where
  "logical_port_name_to_physical_port_list plat port_name =
     (if prefix ''Ethernet'' port_name then
        (if is_logical_port plat port_name then
           Inr ([], Some (get_logical_to_physical plat port_name))
         else
           Inr ([''Error: Invalid port '' @ [CHR 0x27] @ port_name @ [CHR 0x27]], None))
      else bind_err (py_int port_name) (\<lambda>n. Inr ([], Some [n])))"

definition no_physical_ports :: "string \<Rightarrow> string" where
  "no_physical_ports logical_port_name =
     ''Error: No physical ports found for logical port ''
       @ [CHR 0x27] @ logical_port_name @ [CHR 0x27]"

subsection \<open>Reading the EEPROM of a lane\<close>

text \<open>
  The presence test and the read of the EEPROM dictionary, the same four lines in both
  pretty renderers.
\<close>

definition lane_eeprom_dict :: "sfputil \<Rightarrow> int \<Rightarrow> dict option" where
  "lane_eeprom_dict plat physical_port =
     (if \<not> get_presence plat physical_port then None
      else get_eeprom_dict plat physical_port)"

subsection \<open>Pretty multi-line EEPROM data\<close>

text \<open>The block under \<^verbatim>\<open>if dump_dom:\<close> of the multi-line renderer.\<close>

definition pretty_dom :: "dict \<Rightarrow> string \<Rightarrow> py_error + string" where
  "pretty_dom eeprom_dict result =
     (let eeprom_dom_dict = map_of eeprom_dict ''dom'' in
      if eeprom_dom_dict \<noteq> None then
        bind_err (py_get eeprom_dom_dict ''data'') (\<lambda>dom_data_dict.
        if dom_data_dict \<noteq> None then
          bind_err (dict_to_string_pretty_obj dom_data_dict 1) (\<lambda>s. Inr (result @ s))
        else Inr result)
      else Inr result)"

text \<open>
  One pass through the body of the loop of \<^verbatim>\<open>port_eeprom_data_string_pretty\<close>, up to
  and including the last \<^verbatim>\<open>result += "\n"\<close>.
\<close>

definition pretty_lane ::
    "sfputil \<Rightarrow> string \<Rightarrow> bool \<Rightarrow> bool \<Rightarrow> int \<Rightarrow> int \<Rightarrow> string \<Rightarrow> py_error + string" where
  "pretty_lane plat logical_port_name dump_dom ganged i physical_port result =
     bind_err (get_physical_port_name (SStr logical_port_name) (SInt i) ganged) (\<lambda>port_name.
     bind_err
       (case lane_eeprom_dict plat physical_port of
          Some eeprom_dict \<Rightarrow>
            bind_err (py_get (map_of eeprom_dict ''interface'') ''data'') (\<lambda>iface_data_dict.
            let result = result @ get_sfp_eeprom_status_string port_name True;
                result = result @ ''\<newline>''
            in bind_err (dict_to_string_pretty_obj iface_data_dict 1) (\<lambda>s.
            let result = result @ s
            in if dump_dom then pretty_dom eeprom_dict result else Inr result))
        | None \<Rightarrow>
            Inr ((result @ get_sfp_eeprom_status_string port_name False) @ ''\<newline>''))
       (\<lambda>result. Inr (result @ ''\<newline>'')))"

text \<open>
  The \<^verbatim>\<open>return result\<close> of the source stands inside the loop: the function returns at
  the end of the first pass, and falls off its end (the value \<^verbatim>\<open>None\<close>) when the list
  of physical ports is empty.
\<close>

definition port_eeprom_data_string_pretty ::
    "sfputil \<Rightarrow> string \<Rightarrow> bool \<Rightarrow> py_error + (string list \<times> string option)" where
  "port_eeprom_data_string_pretty plat logical_port_name dump_dom =
     bind_err (logical_port_name_to_physical_port_list plat logical_port_name) (\<lambda>(echo, ports).
     case ports of
       None \<Rightarrow> Inr (echo @ [no_physical_ports logical_port_name], Some '''')
     | Some physical_port_list \<Rightarrow>
         (let ganged = (length physical_port_list > 1) in
          case physical_port_list of
            [] \<Rightarrow> Inr (echo, None)
          | physical_port # _ \<Rightarrow>
              bind_err (pretty_lane plat logical_port_name dump_dom ganged 1 physical_port '''')
                (\<lambda>result. Inr (echo, Some result))))"

subsection \<open>Pretty one-line EEPROM data\<close>

text \<open>The block under \<^verbatim>\<open>if dump_dom:\<close> of the one-line renderer.\<close>

definition oneline_dom :: "dict \<Rightarrow> string list \<Rightarrow> string \<Rightarrow> py_error + string" where
  "oneline_dom eeprom_dict domdata_blacklist result =
     (let eeprom_dom_dict = map_of eeprom_dict ''dom'' in
      if eeprom_dom_dict \<noteq> None then
        bind_err (py_get eeprom_dom_dict ''data'') (\<lambda>dom_data_dict.
        if dom_data_dict \<noteq> None then
          bind_err (dict_to_string_comma_separated_obj dom_data_dict domdata_blacklist '''')
            (\<lambda>s. Inr (result @ s))
        else Inr result)
      else Inr result)"

definition oneline_lane ::
    "sfputil \<Rightarrow> string \<Rightarrow> string list \<Rightarrow> string list \<Rightarrow> bool \<Rightarrow> bool \<Rightarrow> int \<Rightarrow> int \<Rightarrow> string
      \<Rightarrow> py_error + string" where
  "oneline_lane plat logical_port_name ifdata_blacklist domdata_blacklist dump_dom ganged i
       physical_port result =
     bind_err
       (case lane_eeprom_dict plat physical_port of
          Some eeprom_dict \<Rightarrow>
            bind_err (py_get (map_of eeprom_dict ''interface'') ''data'') (\<lambda>iface_data_dict.
            bind_err (get_physical_port_name (SStr logical_port_name) (SInt i) ganged)
              (\<lambda>port_name.
            let result = result @ (''port:'' @ str port_name @ '','')
            in bind_err
                 (dict_to_string_comma_separated_obj iface_data_dict ifdata_blacklist '''')
                 (\<lambda>s.
            let result = result @ s
            in if dump_dom then oneline_dom eeprom_dict domdata_blacklist result
               else Inr result)))
        | None \<Rightarrow> Inr result)
       (\<lambda>result. Inr (result @ ''\<newline>''))"

fun oneline_loop ::
    "sfputil \<Rightarrow> string \<Rightarrow> string list \<Rightarrow> string list \<Rightarrow> bool \<Rightarrow> bool \<Rightarrow> int list \<Rightarrow> int \<Rightarrow> string
      \<Rightarrow> py_error + string" where
  "oneline_loop plat logical_port_name ifdata_blacklist domdata_blacklist dump_dom ganged
       [] i result = Inr result"
| "oneline_loop plat logical_port_name ifdata_blacklist domdata_blacklist dump_dom ganged
       (physical_port # rest) i result =
     bind_err
       (oneline_lane plat logical_port_name ifdata_blacklist domdata_blacklist dump_dom ganged i
          physical_port result)
       (\<lambda>result. oneline_loop plat logical_port_name ifdata_blacklist domdata_blacklist dump_dom
          ganged rest (i + 1) result)"

definition port_eeprom_data_string_pretty_oneline ::
    "sfputil \<Rightarrow> string \<Rightarrow> string list \<Rightarrow> string list \<Rightarrow> bool
      \<Rightarrow> py_error + (string list \<times> string option)" where
  "port_eeprom_data_string_pretty_oneline plat logical_port_name ifdata_blacklist
       domdata_blacklist dump_dom =
     bind_err (logical_port_name_to_physical_port_list plat logical_port_name) (\<lambda>(echo, ports).
     case ports of
       None \<Rightarrow> Inr (echo @ [no_physical_ports logical_port_name], Some '''')
     | Some physical_port_list \<Rightarrow>
         (let ganged = (length physical_port_list > 1) in
          bind_err
            (oneline_loop plat logical_port_name ifdata_blacklist domdata_blacklist dump_dom
               ganged physical_port_list 1 '''')
            (\<lambda>result. Inr (echo, Some result))))"

subsection \<open>Raw EEPROM data\<close>

definition raw_lane ::
    "sfputil \<Rightarrow> string \<Rightarrow> bool \<Rightarrow> int \<Rightarrow> int \<Rightarrow> string \<Rightarrow> py_error + string" where
  "raw_lane plat logical_port_name ganged i physical_port result =
     bind_err (get_physical_port_name (SStr logical_port_name) (SInt i) ganged) (\<lambda>port_name.
     let eeprom_raw =
           (if \<not> get_presence plat physical_port then None
            else get_eeprom_raw plat physical_port);
         result =
           (case eeprom_raw of
              None \<Rightarrow> (result @ get_sfp_eeprom_status_string port_name False) @ ''\<newline>''
            | Some bytes \<Rightarrow>
                ((result @ get_sfp_eeprom_status_string port_name True) @ ''\<newline>'')
                  @ raw_bytes_to_string_pretty bytes)
     in Inr (result @ ''\<newline>''))"

fun raw_loop ::
    "sfputil \<Rightarrow> string \<Rightarrow> bool \<Rightarrow> int list \<Rightarrow> int \<Rightarrow> string \<Rightarrow> py_error + string" where
  "raw_loop plat logical_port_name ganged [] i result = Inr result"
| "raw_loop plat logical_port_name ganged (physical_port # rest) i result =
     bind_err (raw_lane plat logical_port_name ganged i physical_port result)
       (\<lambda>result. raw_loop plat logical_port_name ganged rest (i + 1) result)"

definition port_eeprom_data_raw_string_pretty ::
    "sfputil \<Rightarrow> string \<Rightarrow> py_error + (string list \<times> string option)" where
  "port_eeprom_data_raw_string_pretty plat logical_port_name =
     bind_err (logical_port_name_to_physical_port_list plat logical_port_name) (\<lambda>(echo, ports).
     case ports of
       None \<Rightarrow> Inr (echo @ [no_physical_ports logical_port_name], Some '''')
     | Some physical_port_list \<Rightarrow>
         (let ganged = (length physical_port_list > 1) in
          bind_err (raw_loop plat logical_port_name ganged physical_port_list 1 '''')
            (\<lambda>result. Inr (echo, Some result))))"

section \<open>The printers on a store\<close>

text \<open>
  Python dictionaries and lists are mutable objects, shared between caller and callee.
  To state what a printer does to the object it is given, the three printing functions
  are translated a second time, on an explicit store: a list of objects, the address of
  an object being its index. A value held by a dictionary is a scalar or the address
  of a nested dictionary. The printers read the store through \<open>lookup_dict\<close> and
  \<open>lookup_list\<close>; the only object they create is the dictionary of the
  comprehension \<^verbatim>\<open>{i:in_dict[i] for i in in_dict if i != key}\<close>, allocated at the end of
  the store. The exclusion list and the strings are passed by value.

  On a store a dictionary can hold its own address, and the recursion of the source
  then does not end. The store versions take a bound on the depth of the recursion:
  the result is \<open>None\<close> when the bound is used up, or when an address does not
  hold an object of the kind the code reads there.
\<close>

type_synonym addr = nat

datatype hval = HScalar scalar | HRef addr

datatype obj = DictObj "(string \<times> hval) list" | ListObj "string list"

type_synonym heap = "obj list"

definition lookup_dict :: "heap \<Rightarrow> addr \<Rightarrow> (string \<times> hval) list option" where
  "lookup_dict h a =
     (if a < length h then (case h ! a of DictObj es \<Rightarrow> Some es | ListObj _ \<Rightarrow> None)
      else None)"

definition lookup_list :: "heap \<Rightarrow> addr \<Rightarrow> string list option" where
  "lookup_list h a =
     (if a < length h then (case h ! a of ListObj bs \<Rightarrow> Some bs | DictObj _ \<Rightarrow> None)
      else None)"

definition alloc :: "heap \<Rightarrow> obj \<Rightarrow> heap \<times> addr" where
  "alloc h ob = (h @ [ob], length h)"

text \<open>
  \<^verbatim>\<open>dict_to_string_pretty\<close> on the store. After the call on a nested dictionary,
  \<^verbatim>\<open>in_dict\<close> is read again from the store for the comprehension, as the source reads
  the object it was given.
\<close>

fun dict_to_string_pretty_h :: "nat \<Rightarrow> heap \<Rightarrow> addr \<Rightarrow> nat \<Rightarrow> (heap \<times> string) option" where
  "dict_to_string_pretty_h 0 h in_dict indent = None"
| "dict_to_string_pretty_h (Suc fuel) h in_dict indent =
    (case lookup_dict h in_dict of
       None \<Rightarrow> None
     | Some entries \<Rightarrow>
         if length entries = 0 then Some (h, '''')
         else
           let key = hd (sort (map fst entries));
               val = the (map_of entries key)
           in case (case val of
                      HRef d \<Rightarrow>
                        (case dict_to_string_pretty_h fuel h d (indent + 1) of
                           None \<Rightarrow> None
                         | Some (h1, s) \<Rightarrow>
                             Some (h1, (replicate indent (CHR 0x09) @ key @ '':\<newline>'') @ s))
                    | HScalar s \<Rightarrow>
                        Some (h, replicate indent (CHR 0x09) @ key @ '': '' @ str s @ ''\<newline>''))
              of
                None \<Rightarrow> None
              | Some (h1, out) \<Rightarrow>
                  (case lookup_dict h1 in_dict of
                     None \<Rightarrow> None
                   | Some entries1 \<Rightarrow>
                       (case alloc h1 (DictObj (filter (\<lambda>(i, _). i \<noteq> key) entries1)) of
                          (h2, rest) \<Rightarrow>
                            (case dict_to_string_pretty_h fuel h2 rest indent of
                               None \<Rightarrow> None
                             | Some (h3, s) \<Rightarrow> Some (h3, out @ s)))))"

declare dict_to_string_pretty_h.simps [simp del]

fun dict_to_string_comma_separated_h ::
    "nat \<Rightarrow> heap \<Rightarrow> addr \<Rightarrow> string list \<Rightarrow> string \<Rightarrow> bool \<Rightarrow> (heap \<times> string) option" where
  "dict_to_string_comma_separated_h 0 h in_dict key_blacklist elemprefix first = None"
| "dict_to_string_comma_separated_h (Suc fuel) h in_dict key_blacklist elemprefix first =
    (case lookup_dict h in_dict of
       None \<Rightarrow> None
     | Some entries \<Rightarrow>
         if length entries = 0 then Some (h, '''')
         else
           let key = hd (sort (map fst entries));
               val = the (map_of entries key)
           in if key \<in> set key_blacklist then Some (h, '''')
              else
                let out = (if \<not> first then '','' else '''')
                in case (case val of
                           HRef d \<Rightarrow>
                             (case dict_to_string_comma_separated_h fuel h d key_blacklist
                                     (key @ ''.'') True of
                                None \<Rightarrow> None
                              | Some (h1, s) \<Rightarrow> Some (h1, out @ s))
                         | HScalar s \<Rightarrow> Some (h, out @ ((elemprefix @ key) @ '':'' @ str s)))
                   of
                     None \<Rightarrow> None
                   | Some (h1, out) \<Rightarrow>
                       (case lookup_dict h1 in_dict of
                          None \<Rightarrow> None
                        | Some entries1 \<Rightarrow>
                            (case alloc h1 (DictObj (filter (\<lambda>(i, _). i \<noteq> key) entries1)) of
                               (h2, rest) \<Rightarrow>
                                 (case dict_to_string_comma_separated_h fuel h2 rest
                                         key_blacklist elemprefix False of
                                    None \<Rightarrow> None
                                  | Some (h3, s) \<Rightarrow> Some (h3, out @ s)))))"

declare dict_to_string_comma_separated_h.simps [simp del]

text \<open>
  \<^verbatim>\<open>raw_bytes_to_string_pretty\<close> on the store: every pass of the loop reads
  \<^verbatim>\<open>raw_bytes[i]\<close> from the list object.
\<close>

fun raw_bytes_loop_h :: "heap \<Rightarrow> addr \<Rightarrow> nat list \<Rightarrow> string \<Rightarrow> (heap \<times> string) option" where
  "raw_bytes_loop_h h raw_bytes [] hexstr = Some (h, hexstr)"
| "raw_bytes_loop_h h raw_bytes (i # rest) hexstr =
     (case lookup_list h raw_bytes of
        None \<Rightarrow> None
      | Some bs \<Rightarrow>
          if i < length bs then raw_bytes_loop_h h raw_bytes rest (raw_bytes_step bs hexstr i)
          else None)"

definition raw_bytes_to_string_pretty_h :: "heap \<Rightarrow> addr \<Rightarrow> (heap \<times> string) option" where
  "raw_bytes_to_string_pretty_h h raw_bytes =
     (case lookup_list h raw_bytes of
        None \<Rightarrow> None
      | Some bs \<Rightarrow> raw_bytes_loop_h h raw_bytes [0..<length bs] '''')"

section \<open>Example data\<close>

text \<open>The interface data of the specification's one-line example.\<close>

definition acme_data :: dict where
  "acme_data =
     [(''VendorName'', Scalar (SStr ''ACME'')),
      (''Temp'', Dict [(''High'', Scalar (SInt 70)), (''Low'', Scalar (SInt (- 5)))])]"

text \<open>
  A platform with the ganged port \<^verbatim>\<open>Ethernet0\<close> on the physical lanes 5 and 6, of
  which only lane 5 holds a transceiver, and a port \<^verbatim>\<open>Ethernet8\<close> whose table
  entry lists no lane.
\<close>

definition example_platform :: sfputil where
  "example_platform =
     \<lparr> is_logical_port = (\<lambda>n. n = ''Ethernet0'' \<or> n = ''Ethernet8''),
       get_logical_to_physical = (\<lambda>n. if n = ''Ethernet0'' then [5, 6] else []),
       get_presence = (\<lambda>p. p = 5),
       get_eeprom_dict =
         (\<lambda>p. if p = 5 then Some [(''interface'', Dict [(''data'', Dict acme_data)])] else None),
       get_eeprom_raw = (\<lambda>p. if p = 5 then Some [''01'', ''0a''] else None) \<rparr>"

definition sixteen_bytes :: "string list" where
  "sixteen_bytes =
     [''00'', ''01'', ''02'', ''03'', ''04'', ''05'', ''06'', ''07'',
      ''08'', ''09'', ''0a'', ''0b'', ''0c'', ''0d'', ''0e'', ''0f'']"

definition seventeen_bytes :: "string list" where
  "seventeen_bytes =
     [''00'', ''01'', ''02'', ''03'', ''04'', ''05'', ''06'', ''07'',
      ''08'', ''09'', ''0a'', ''0b'', ''0c'', ''0d'', ''0e'', ''0f'', ''10'']"

text \<open>
  Interface data with three fields, and the exclusion list for interface data that
  the \<^verbatim>\<open>eeprom\<close> command passes to the one-line renderer.
\<close>

definition vendor_data :: dict where
  "vendor_data =
     [(''Connector'', Scalar (SStr ''LC'')),
      (''EncodingCodes'', Scalar (SStr ''64B66B'')),
      (''VendorName'', Scalar (SStr ''ACME''))]"

definition ifdata_out_blacklist :: "string list" where
  "ifdata_out_blacklist =
     [''EncodingCodes'', ''ExtIdentOfTypeOfTransceiver'',
      ''NominalSignallingRate(UnitsOf100Mbd)'']"

text \<open>
  A store holding the dictionary of the one-line example (address 0), its nested
  dictionary (address 1) and a list of two byte tokens (address 2).
\<close>

definition example_heap :: heap where
  "example_heap =
     [DictObj [(''VendorName'', HScalar (SStr ''ACME'')), (''Temp'', HRef 1)],
      DictObj [(''High'', HScalar (SInt 70)), (''Low'', HScalar (SInt (- 5)))],
      ListObj [''01'', ''0a'']]"

section \<open>Notions used to state the properties\<close>

subsection \<open>Tokens of a hex dump\<close>

text \<open>
  The tokens of a rendered string are its maximal runs of characters other than the
  space and the line break, the two separators the renderer inserts.
\<close>

definition is_sep :: "char \<Rightarrow> bool" where
  "is_sep c = (c = CHR '' '' \<or> c = CHR 0x0A)"

fun split_ws :: "string \<Rightarrow> string \<Rightarrow> string list" where
  "split_ws cur [] = (if cur = [] then [] else [cur])"
| "split_ws cur (c # cs) =
     (if is_sep c then (if cur = [] then split_ws [] cs else cur # split_ws [] cs)
      else split_ws (cur @ [c]) cs)"

definition hex_tokens :: "string \<Rightarrow> string list" where
  "hex_tokens s = split_ws [] s"

text \<open>What the loop of \<^verbatim>\<open>raw_bytes_to_string_pretty\<close> writes in front of the token of index \<open>i\<close>.\<close>

definition sep_before :: "nat \<Rightarrow> string" where
  "sep_before i =
     (if i > 0 \<and> i mod 8 = 0 then '' '' else '''')
       @ (if i > 0 \<and> i mod 16 = 0 then ''\<newline>'' else '''')"

subsection \<open>Display names and messages\<close>

text \<open>
  The display name of lane \<open>i\<close> of the logical port \<open>l\<close>, in the words of the
  specification: \<^verbatim>\<open>{l}:{i} (ganged)\<close> for a ganged port, \<open>l\<close> itself otherwise.
\<close>

definition display_name :: "string \<Rightarrow> bool \<Rightarrow> nat \<Rightarrow> string" where
  "display_name l ganged i = (if ganged then l @ '':'' @ str_int (int i) @ '' (ganged)'' else l)"

text \<open>The line the resolver echoes for a logical port name the port table does not know.\<close>

definition invalid_port :: "string \<Rightarrow> string" where
  "invalid_port port_name = ''Error: Invalid port '' @ [CHR 0x27] @ port_name @ [CHR 0x27]"

subsection \<open>Well-formed EEPROM records\<close>

text \<open>
  The mapping under the key \<^verbatim>\<open>data\<close> of a section (\<^verbatim>\<open>interface\<close> or \<^verbatim>\<open>dom\<close>) of an
  EEPROM record, when the section is a mapping and holds one.
\<close>

definition data_of :: "pyval option \<Rightarrow> dict option" where
  "data_of obj =
     (case obj of
        Some (Dict sec) \<Rightarrow> (case map_of sec ''data'' of Some (Dict d) \<Rightarrow> Some d | _ \<Rightarrow> None)
      | _ \<Rightarrow> None)"

text \<open>
  A \<^verbatim>\<open>dom\<close> section the renderers can read: absent, or a mapping whose \<^verbatim>\<open>data\<close> is
  absent or a mapping. A record is readable when its \<^verbatim>\<open>interface\<close> section has a
  \<^verbatim>\<open>data\<close> mapping and, where DOM data is asked for, its \<^verbatim>\<open>dom\<close> section can be read.
  A lane is readable when no transceiver is detected in it or its record is readable.
\<close>

definition dom_ok :: "pyval option \<Rightarrow> bool" where
  "dom_ok obj =
     (case obj of
        None \<Rightarrow> True
      | Some (Scalar _) \<Rightarrow> False
      | Some (Dict sec) \<Rightarrow>
          (case map_of sec ''data'' of
             None \<Rightarrow> True
           | Some (Scalar _) \<Rightarrow> False
           | Some (Dict _) \<Rightarrow> True))"

definition eeprom_record_ok :: "dict \<Rightarrow> bool \<Rightarrow> bool" where
  "eeprom_record_ok ed dump_dom =
     (data_of (map_of ed ''interface'') \<noteq> None
      \<and> (if dump_dom then dom_ok (map_of ed ''dom'') else True))"

definition lane_readable :: "sfputil \<Rightarrow> bool \<Rightarrow> int \<Rightarrow> bool" where
  "lane_readable plat dump_dom p =
     (case lane_eeprom_dict plat p of
        None \<Rightarrow> True
      | Some ed \<Rightarrow> eeprom_record_ok ed dump_dom)"

subsection \<open>The text of one lane\<close>

definition pretty_data :: "pyval option \<Rightarrow> string" where
  "pretty_data sec =
     (case data_of sec of Some d \<Rightarrow> dict_to_string_pretty d 1 | None \<Rightarrow> '''')"

definition comma_data :: "pyval option \<Rightarrow> string list \<Rightarrow> string" where
  "comma_data sec key_blacklist =
     (case data_of sec of
        Some d \<Rightarrow> dict_to_string_comma_separated d key_blacklist '''' True
      | None \<Rightarrow> '''')"

text \<open>The block of one lane in the multi-line, the one-line and the raw rendering.\<close>

definition pretty_block :: "sfputil \<Rightarrow> string \<Rightarrow> bool \<Rightarrow> int \<Rightarrow> string" where
  "pretty_block plat port_name dump_dom p =
     (case lane_eeprom_dict plat p of
        None \<Rightarrow> port_name @ '': SFP EEPROM not detected\<newline>''
      | Some ed \<Rightarrow>
          port_name @ '': SFP EEPROM detected\<newline>''
            @ pretty_data (map_of ed ''interface'')
            @ (if dump_dom then pretty_data (map_of ed ''dom'') else ''''))
     @ ''\<newline>''"

definition oneline_line ::
    "sfputil \<Rightarrow> string \<Rightarrow> string list \<Rightarrow> string list \<Rightarrow> bool \<Rightarrow> int \<Rightarrow> string" where
  "oneline_line plat port_name ifdata_blacklist domdata_blacklist dump_dom p =
     (case lane_eeprom_dict plat p of
        None \<Rightarrow> ''''
      | Some ed \<Rightarrow>
          ''port:'' @ port_name @ '',''
            @ comma_data (map_of ed ''interface'') ifdata_blacklist
            @ (if dump_dom then comma_data (map_of ed ''dom'') domdata_blacklist else ''''))
     @ ''\<newline>''"

definition raw_block :: "sfputil \<Rightarrow> string \<Rightarrow> int \<Rightarrow> string" where
  "raw_block plat port_name p =
     (case (if get_presence plat p then get_eeprom_raw plat p else None) of
        None \<Rightarrow> port_name @ '': SFP EEPROM not detected\<newline>''
      | Some bytes \<Rightarrow>
          port_name @ '': SFP EEPROM detected\<newline>'' @ raw_bytes_to_string_pretty bytes)
     @ ''\<newline>''"

subsection \<open>Entries in key order\<close>

text \<open>The keys of a dictionary in ascending order, each once.\<close>

definition sorted_keys :: "dict \<Rightarrow> string list" where
  "sorted_keys d = sort (remdups (map fst d))"

text \<open>
  What the multi-line and the one-line printer write for one key and its value, and
  the comma-joined text of a sequence of entries (with a leading comma unless it is
  the first text of its level).
\<close>

definition pretty_entry :: "nat \<Rightarrow> string \<Rightarrow> pyval \<Rightarrow> string" where
  "pretty_entry indent key v =
     (case v of
        Dict d \<Rightarrow>
          replicate indent (CHR 0x09) @ key @ '':\<newline>'' @ dict_to_string_pretty d (indent + 1)
      | Scalar s \<Rightarrow> replicate indent (CHR 0x09) @ key @ '': '' @ str s @ ''\<newline>'')"

definition comma_entry :: "string list \<Rightarrow> string \<Rightarrow> string \<Rightarrow> pyval \<Rightarrow> string" where
  "comma_entry key_blacklist elemprefix key v =
     (case v of
        Dict d \<Rightarrow> dict_to_string_comma_separated d key_blacklist (key @ ''.'') True
      | Scalar s \<Rightarrow> elemprefix @ key @ '':'' @ str s)"

fun comma_join :: "bool \<Rightarrow> string list \<Rightarrow> string" where
  "comma_join first [] = ''''"
| "comma_join first (x # xs) = (if first then '''' else '','') @ x @ comma_join False xs"

subsection \<open>Values in the store\<close>

text \<open>
  \<open>repr_val h hv v\<close>: in the store \<open>h\<close>, the stored value \<open>hv\<close> stands
  for the value \<open>v\<close>; \<open>dict_at h a d\<close>: the object at address \<open>a\<close> is a
  dictionary whose value, with everything it refers to, is \<open>d\<close>.
\<close>

fun repr_val :: "heap \<Rightarrow> hval \<Rightarrow> pyval \<Rightarrow> bool" where
  "repr_val h (HScalar s) (Scalar s') = (s = s')"
| "repr_val h (HRef a) (Dict d) =
     (case lookup_dict h a of
        None \<Rightarrow> False
      | Some es \<Rightarrow> list_all2 (\<lambda>e x. fst e = fst x \<and> repr_val h (snd e) (snd x)) es d)"
| "repr_val h (HScalar s) (Dict d) = False"
| "repr_val h (HRef a) (Scalar s) = False"

definition dict_at :: "heap \<Rightarrow> addr \<Rightarrow> dict \<Rightarrow> bool" where
  "dict_at h a d = repr_val h (HRef a) (Dict d)"

definition repr_entries :: "heap \<Rightarrow> (string \<times> hval) list \<Rightarrow> dict \<Rightarrow> bool" where
  "repr_entries h es d = list_all2 (\<lambda>e x. fst e = fst x \<and> repr_val h (snd e) (snd x)) es d"

text \<open>The first half of one pass of a store printer: the entry of the least key.\<close>

definition pretty_entry_h ::
    "nat \<Rightarrow> heap \<Rightarrow> nat \<Rightarrow> string \<Rightarrow> hval \<Rightarrow> (heap \<times> string) option" where
  "pretty_entry_h fuel h indent key val =
     (case val of
        HRef d \<Rightarrow>
          (case dict_to_string_pretty_h fuel h d (indent + 1) of
             None \<Rightarrow> None
           | Some (h1, s) \<Rightarrow>
               Some (h1, (replicate indent (CHR 0x09) @ key @ '':\<newline>'') @ s))
      | HScalar s \<Rightarrow>
          Some (h, replicate indent (CHR 0x09) @ key @ '': '' @ str s @ ''\<newline>''))"

definition comma_entry_h ::
    "nat \<Rightarrow> heap \<Rightarrow> string list \<Rightarrow> string \<Rightarrow> bool \<Rightarrow> string \<Rightarrow> hval
      \<Rightarrow> (heap \<times> string) option" where
  "comma_entry_h fuel h key_blacklist elemprefix first key val =
     (case val of
        HRef d \<Rightarrow>
          (case dict_to_string_comma_separated_h fuel h d key_blacklist (key @ ''.'') True of
             None \<Rightarrow> None
           | Some (h1, s) \<Rightarrow> Some (h1, (if \<not> first then '','' else '''') @ s))
      | HScalar s \<Rightarrow>
          Some (h, (if \<not> first then '','' else '''') @ ((elemprefix @ key) @ '':'' @ str s)))"

section \<open>Lemmas\<close>

subsection \<open>Raw bytes\<close>

lemma raw_bytes_step_eq: "raw_bytes_step bs acc i = acc @ sep_before i @ bs ! i @ '' ''"
  by (simp add: raw_bytes_step_def sep_before_def Let_def)

lemma foldl_append_concat: "foldl (\<lambda>acc i. acc @ g i) acc xs = acc @ concat (map g xs)"
  by (induction xs arbitrary: acc) auto

lemma raw_bytes_before_form:
  "raw_bytes_to_string_pretty bs =
     concat (map (\<lambda>i. sep_before i @ bs ! i @ '' '') [0..<length bs])"
proof -
  have "raw_bytes_step bs = (\<lambda>acc i. acc @ (sep_before i @ bs ! i @ '' ''))"
    by (simp add: fun_eq_iff raw_bytes_step_eq)
  then show ?thesis
    unfolding raw_bytes_to_string_pretty_def
    by (simp add: foldl_append_concat)
qed

lemma before_after:
  "n \<le> N \<Longrightarrow>
   concat (map (\<lambda>i. sep_before i @ bs ! i @ '' '') [0..<n])
     @ (if n < N then sep_before n else '''')
   = concat (map (\<lambda>i. bs ! i @ '' '' @ (if Suc i < N then sep_before (Suc i) else ''''))
       [0..<n])"
proof (induction n)
  case 0
  then show ?case by (simp add: sep_before_def)
next
  case (Suc n)
  then show ?case by simp
qed

lemma split_ws_clean:
  "\<forall>c \<in> set t. \<not> is_sep c \<Longrightarrow> split_ws cur (t @ s) = split_ws (cur @ t) s"
  by (induction t arbitrary: cur) auto

lemma split_ws_sep_app:
  "is_sep c \<Longrightarrow> split_ws cur (xs @ c # ys) = split_ws cur (xs @ [c]) @ split_ws [] ys"
  by (induction xs arbitrary: cur) auto

lemma hex_tokens_app:
  "xs = [] \<or> is_sep (last xs) \<Longrightarrow> hex_tokens (xs @ ys) = hex_tokens xs @ hex_tokens ys"
proof (cases xs rule: rev_cases)
  case Nil
  then show ?thesis by (simp add: hex_tokens_def)
next
  case (snoc zs c)
  assume "xs = [] \<or> is_sep (last xs)"
  with snoc have "is_sep c" by simp
  from split_ws_sep_app [OF this, of "[]" zs ys] snoc show ?thesis
    by (simp add: hex_tokens_def)
qed

lemma is_sep_sep_before: "\<forall>c \<in> set (sep_before i). is_sep c"
  by (auto simp: sep_before_def is_sep_def)

lemma split_ws_seps: "\<forall>c \<in> set s. is_sep c \<Longrightarrow> split_ws [] (s @ r) = split_ws [] r"
  by (induction s) auto

lemma hex_tokens_item:
  assumes "t \<noteq> []" "\<forall>c \<in> set t. \<not> is_sep c"
  shows "hex_tokens (sep_before i @ t @ '' '') = [t]"
proof -
  have "split_ws [] (sep_before i @ (t @ '' '')) = split_ws [] (t @ '' '')"
    by (rule split_ws_seps) (rule is_sep_sep_before)
  also have "\<dots> = split_ws ([] @ t) '' ''"
    using assms(2) by (rule split_ws_clean)
  also have "\<dots> = [t]"
    using assms(1) by (simp add: is_sep_def)
  finally show ?thesis by (simp add: hex_tokens_def)
qed

lemma hex_tokens_prefix:
  assumes "\<forall>t \<in> set bs. t \<noteq> [] \<and> (\<forall>c \<in> set t. \<not> is_sep c)"
  shows "n \<le> length bs \<Longrightarrow>
    hex_tokens (concat (map (\<lambda>i. sep_before i @ bs ! i @ '' '') [0..<n])) = take n bs
    \<and> (concat (map (\<lambda>i. sep_before i @ bs ! i @ '' '') [0..<n]) = [] \<or>
       is_sep (last (concat (map (\<lambda>i. sep_before i @ bs ! i @ '' '') [0..<n]))))"
proof (induction n)
  case 0
  then show ?case by (simp add: hex_tokens_def)
next
  case (Suc n)
  let ?p = "concat (map (\<lambda>i. sep_before i @ bs ! i @ '' '') [0..<n])"
  from Suc have n: "n < length bs" by simp
  with Suc have ih: "hex_tokens ?p = take n bs" "?p = [] \<or> is_sep (last ?p)"
    by simp_all
  from n assms have t: "bs ! n \<noteq> []" "\<forall>c \<in> set (bs ! n). \<not> is_sep c"
    by auto
  have "hex_tokens (?p @ (sep_before n @ bs ! n @ '' '')) = take n bs @ [bs ! n]"
    using hex_tokens_app [OF ih(2)] ih(1) hex_tokens_item [OF t] by simp
  then show ?case
    using n by (simp add: take_Suc_conv_app_nth is_sep_def)
qed

subsection \<open>Port names and the resolver\<close>

lemma str_int_1: "str_int 1 = ''1''"
  by (simp add: str_int_def eval_simps)

lemma port_name_str:
  "get_physical_port_name (SStr l) (SInt i) ganged =
     Inr (SStr (if ganged then l @ '':'' @ str_int i @ '' (ganged)'' else l))"
  by (simp add: get_physical_port_name_def)

lemma resolver_logical:
  "prefix ''Ethernet'' l \<Longrightarrow> is_logical_port plat l \<Longrightarrow>
   logical_port_name_to_physical_port_list plat l = Inr ([], Some (get_logical_to_physical plat l))"
  by (simp add: logical_port_name_to_physical_port_list_def)

subsection \<open>Lanes\<close>

lemma data_of_SomeD:
  "data_of obj = Some d \<Longrightarrow> \<exists>sec. obj = Some (Dict sec) \<and> map_of sec ''data'' = Some (Dict d)"
  by (auto simp: data_of_def split: option.splits pyval.splits)

lemma py_get_data: "data_of obj = Some d \<Longrightarrow> py_get obj ''data'' = Inr (Some (Dict d))"
  by (auto dest!: data_of_SomeD simp: py_get_def)

lemma dom_ok_cases:
  assumes "dom_ok obj"
  obtains (absent) "obj = None"
    | (no_data) sec where "obj = Some (Dict sec)" "map_of sec ''data'' = None"
    | (data) sec d where "obj = Some (Dict sec)" "map_of sec ''data'' = Some (Dict d)"
proof (cases obj)
  case None
  then show ?thesis by (rule absent)
next
  case (Some v)
  show ?thesis
  proof (cases v)
    case (Scalar x)
    with Some assms show ?thesis by (simp add: dom_ok_def)
  next
    case (Dict sec)
    show ?thesis
    proof (cases "map_of sec ''data''")
      case None
      with Some Dict show ?thesis by (simp add: no_data)
    next
      case inner: (Some w)
      show ?thesis
      proof (cases w)
        case (Scalar x)
        with Some Dict inner assms show ?thesis by (simp add: dom_ok_def)
      next
        case d: (Dict d)
        with Some Dict inner show ?thesis by (simp add: data)
      qed
    qed
  qed
qed

lemma pretty_dom_eq:
  assumes "dom_ok (map_of ed ''dom'')"
  shows "pretty_dom ed r = Inr (r @ pretty_data (map_of ed ''dom''))"
  using assms
proof (cases rule: dom_ok_cases)
  case absent
  then show ?thesis by (simp add: pretty_dom_def pretty_data_def data_of_def)
next
  case (no_data sec)
  then show ?thesis
    by (simp add: pretty_dom_def pretty_data_def data_of_def py_get_def bind_err_def)
next
  case (data sec d)
  then show ?thesis
    by (simp add: pretty_dom_def pretty_data_def data_of_def py_get_def bind_err_def
        dict_to_string_pretty_obj_def)
qed

lemma oneline_dom_eq:
  assumes "dom_ok (map_of ed ''dom'')"
  shows "oneline_dom ed bl r = Inr (r @ comma_data (map_of ed ''dom'') bl)"
  using assms
proof (cases rule: dom_ok_cases)
  case absent
  then show ?thesis by (simp add: oneline_dom_def comma_data_def data_of_def)
next
  case (no_data sec)
  then show ?thesis
    by (simp add: oneline_dom_def comma_data_def data_of_def py_get_def bind_err_def)
next
  case (data sec d)
  then show ?thesis
    by (simp add: oneline_dom_def comma_data_def data_of_def py_get_def bind_err_def
        dict_to_string_comma_separated_obj_def)
qed

lemma pretty_lane_absent:
  "lane_eeprom_dict plat p = None \<Longrightarrow>
   pretty_lane plat l dd g (int i) p acc =
     Inr (acc @ display_name l g i @ '': SFP EEPROM not detected\<newline>\<newline>'')"
  by (simp add: pretty_lane_def port_name_str bind_err_def display_name_def
      get_sfp_eeprom_status_string_def)

lemma pretty_lane_present:
  assumes "lane_eeprom_dict plat p = Some ed" "eeprom_record_ok ed dd"
  shows "pretty_lane plat l dd g (int i) p acc =
     Inr (acc @ display_name l g i @ '': SFP EEPROM detected\<newline>''
            @ pretty_data (map_of ed ''interface'')
            @ (if dd then pretty_data (map_of ed ''dom'') else '''') @ ''\<newline>'')"
proof -
  from assms(2) obtain d where d: "data_of (map_of ed ''interface'') = Some d"
    by (auto simp: eeprom_record_ok_def)
  have dom: "dd \<Longrightarrow> pretty_dom ed r = Inr (r @ pretty_data (map_of ed ''dom''))" for r
    using assms(2) by (simp add: eeprom_record_ok_def pretty_dom_eq)
  show ?thesis
  proof (cases dd)
    case True
    with dom show ?thesis
      by (simp add: pretty_lane_def port_name_str bind_err_def display_name_def assms(1)
          py_get_data [OF d] dict_to_string_pretty_obj_def pretty_data_def d
          get_sfp_eeprom_status_string_def)
  next
    case False
    then show ?thesis
      by (simp add: pretty_lane_def port_name_str bind_err_def display_name_def assms(1)
          py_get_data [OF d] dict_to_string_pretty_obj_def pretty_data_def d
          get_sfp_eeprom_status_string_def)
  qed
qed

lemma pretty_lane_eq:
  assumes "lane_readable plat dd p"
  shows "pretty_lane plat l dd g (int i) p acc =
     Inr (acc @ pretty_block plat (display_name l g i) dd p)"
proof (cases "lane_eeprom_dict plat p")
  case None
  then show ?thesis by (simp add: pretty_lane_absent pretty_block_def)
next
  case (Some ed)
  with assms have "eeprom_record_ok ed dd" by (simp add: lane_readable_def)
  from pretty_lane_present [OF Some this] Some show ?thesis
    by (simp add: pretty_block_def)
qed

lemma oneline_lane_eq:
  assumes "lane_readable plat dd p"
  shows "oneline_lane plat l b1 b2 dd g (int i) p acc =
     Inr (acc @ oneline_line plat (display_name l g i) b1 b2 dd p)"
proof (cases "lane_eeprom_dict plat p")
  case None
  then show ?thesis by (simp add: oneline_lane_def oneline_line_def bind_err_def)
next
  case (Some ed)
  with assms have ok: "eeprom_record_ok ed dd" by (simp add: lane_readable_def)
  then obtain d where d: "data_of (map_of ed ''interface'') = Some d"
    by (auto simp: eeprom_record_ok_def)
  have dom: "dd \<Longrightarrow> oneline_dom ed b2 r = Inr (r @ comma_data (map_of ed ''dom'') b2)" for r
    using ok by (simp add: eeprom_record_ok_def oneline_dom_eq)
  show ?thesis
  proof (cases dd)
    case True
    with dom show ?thesis
      by (simp add: oneline_lane_def port_name_str bind_err_def display_name_def Some
          py_get_data [OF d] dict_to_string_comma_separated_obj_def comma_data_def d
          oneline_line_def)
  next
    case False
    then show ?thesis
      by (simp add: oneline_lane_def port_name_str bind_err_def display_name_def Some
          py_get_data [OF d] dict_to_string_comma_separated_obj_def comma_data_def d
          oneline_line_def)
  qed
qed

lemma oneline_loop_eq:
  "\<forall>p \<in> set ps. lane_readable plat dd p \<Longrightarrow>
   oneline_loop plat l b1 b2 dd g ps (int k) acc =
     Inr (acc @ concat (map (\<lambda>(i, p). oneline_line plat (display_name l g i) b1 b2 dd p)
       (enumerate k ps)))"
proof (induction ps arbitrary: k acc)
  case Nil
  then show ?case by simp
next
  case (Cons p ps)
  then have p: "lane_readable plat dd p" and ps: "\<forall>p \<in> set ps. lane_readable plat dd p"
    by simp_all
  have "oneline_loop plat l b1 b2 dd g (p # ps) (int k) acc =
      oneline_loop plat l b1 b2 dd g ps (int (Suc k))
        (acc @ oneline_line plat (display_name l g k) b1 b2 dd p)"
    by (simp add: oneline_lane_eq [OF p] bind_err_def add.commute)
  also note Cons.IH [OF ps, of "Suc k"]
  finally show ?case by simp
qed

lemma raw_lane_eq:
  "raw_lane plat l g (int i) p acc = Inr (acc @ raw_block plat (display_name l g i) p)"
  by (simp add: raw_lane_def port_name_str bind_err_def raw_block_def display_name_def
      get_sfp_eeprom_status_string_def Let_def split: option.splits)

lemma raw_loop_eq:
  "raw_loop plat l g ps (int k) acc =
     Inr (acc @ concat (map (\<lambda>(i, p). raw_block plat (display_name l g i) p) (enumerate k ps)))"
proof (induction ps arbitrary: k acc)
  case Nil
  then show ?case by simp
next
  case (Cons p ps)
  have "raw_loop plat l g (p # ps) (int k) acc =
      raw_loop plat l g ps (int (Suc k)) (acc @ raw_block plat (display_name l g k) p)"
    by (simp add: raw_lane_eq bind_err_def add.commute)
  also note Cons [of "Suc k"]
  finally show ?case by simp
qed

lemma resolver_cases:
  "logical_port_name_to_physical_port_list plat l = Inr (echo, Some ps) \<Longrightarrow>
   port_eeprom_data_string_pretty plat l dd =
     (case ps of
        [] \<Rightarrow> Inr (echo, None)
      | p # rest \<Rightarrow>
          bind_err (pretty_lane plat l dd (rest \<noteq> []) 1 p '''') (\<lambda>r. Inr (echo, Some r)))"
  by (cases ps) (simp_all add: port_eeprom_data_string_pretty_def bind_err_def)

subsection \<open>Dictionaries in key order\<close>

lemma hd_sort_Min:
  fixes xs :: "'a :: linorder list"
  assumes "xs \<noteq> []"
  shows "hd (sort xs) = Min (set xs)"
proof -
  from assms have "sort xs \<noteq> []" by (metis length_sort length_0_conv)
  then obtain y ys where s: "sort xs = y # ys" by (cases "sort xs") auto
  have "sorted (y # ys)" using s sorted_sort [of xs] by simp
  then have le: "\<forall>z \<in> set ys. y \<le> z" by simp
  have "set (sort xs) = set xs" by simp
  with s have elems: "set xs = insert y (set ys)" by simp
  have "Min (set xs) = y"
  proof (rule Min_eqI)
    show "finite (set xs)" by simp
    show "y \<le> z" if "z \<in> set xs" for z using that le elems by auto
    show "y \<in> set xs" using elems by simp
  qed
  with s show ?thesis by simp
qed

lemma sorted_keys_set: "sorted_keys d = sorted_list_of_set (set (map fst d))"
  unfolding sorted_keys_def by (rule sorted_list_of_set_sort_remdups [symmetric])

lemma keys_remove: "set (map fst (filter (\<lambda>(i, _). i \<noteq> k) d)) = set (map fst d) - {k}"
  by (induction d) auto

lemma sorted_keys_Cons:
  assumes "d \<noteq> []"
  shows "sorted_keys d =
    hd (sort (map fst d)) # sorted_keys (filter (\<lambda>(i, _). i \<noteq> hd (sort (map fst d))) d)"
proof -
  let ?A = "set (map fst d)"
  from assms have ne: "?A \<noteq> {}" by simp
  have m: "hd (sort (map fst d)) = Min ?A" using assms by (simp add: hd_sort_Min)
  have "sorted_list_of_set ?A = Min ?A # sorted_list_of_set (?A - {Min ?A})"
    using ne by (intro sorted_list_of_set_nonempty) simp_all
  then show ?thesis
    unfolding sorted_keys_set keys_remove m .
qed

lemma map_of_remove: "k' \<noteq> k \<Longrightarrow> map_of (filter (\<lambda>(i, _). i \<noteq> k) d) k' = map_of d k'"
  by (induction d) auto

lemma sorted_keys_remove_notin: "k \<notin> set (sorted_keys (filter (\<lambda>(i, _). i \<noteq> k) d))"
  unfolding sorted_keys_set keys_remove by simp

lemma pretty_sorted:
  "dict_to_string_pretty d indent =
     concat (map (\<lambda>k. pretty_entry indent k (the (map_of d k))) (sorted_keys d))"
proof (induction d indent rule: dict_to_string_pretty.induct)
  case (1 in_dict indent)
  show ?case
  proof (cases "in_dict = []")
    case True
    then show ?thesis
      by (simp add: sorted_keys_def dict_to_string_pretty.simps [of "[]"])
  next
    case False
    let ?k = "hd (sort (map fst in_dict))"
    let ?rest = "filter (\<lambda>(i, _). i \<noteq> ?k) in_dict"
    have ih: "dict_to_string_pretty ?rest indent =
        concat (map (\<lambda>k. pretty_entry indent k (the (map_of ?rest k))) (sorted_keys ?rest))"
      using False by (intro "1.IH"(2)) simp_all
    have same: "map (\<lambda>k. pretty_entry indent k (the (map_of ?rest k))) (sorted_keys ?rest)
        = map (\<lambda>k. pretty_entry indent k (the (map_of in_dict k))) (sorted_keys ?rest)"
    proof (rule map_cong [OF refl])
      fix x assume "x \<in> set (sorted_keys ?rest)"
      with sorted_keys_remove_notin [of ?k in_dict] have "x \<noteq> ?k" by auto
      then show "pretty_entry indent x (the (map_of ?rest x)) =
          pretty_entry indent x (the (map_of in_dict x))"
        by (simp add: map_of_remove)
    qed
    have "dict_to_string_pretty in_dict indent =
        pretty_entry indent ?k (the (map_of in_dict ?k)) @ dict_to_string_pretty ?rest indent"
      using False
      by (simp add: dict_to_string_pretty.simps [of in_dict indent] pretty_entry_def Let_def
          split: pyval.splits)
    then show ?thesis
      by (simp add: ih same sorted_keys_Cons [OF False])
  qed
qed

lemma comma_sorted:
  "dict_to_string_comma_separated d bl pre first =
     comma_join first (map (\<lambda>k. comma_entry bl pre k (the (map_of d k)))
       (takeWhile (\<lambda>k. k \<notin> set bl) (sorted_keys d)))"
proof (induction d bl pre first rule: dict_to_string_comma_separated.induct)
  case (1 in_dict bl pre first)
  show ?case
  proof (cases "in_dict = []")
    case True
    then show ?thesis
      by (simp add: sorted_keys_def dict_to_string_comma_separated.simps [of "[]"])
  next
    case False
    let ?k = "hd (sort (map fst in_dict))"
    let ?rest = "filter (\<lambda>(i, _). i \<noteq> ?k) in_dict"
    show ?thesis
    proof (cases "?k \<in> set bl")
      case True
      then show ?thesis
        using False
        by (simp add: dict_to_string_comma_separated.simps [of in_dict bl pre first]
            sorted_keys_Cons [OF False] Let_def)
    next
      case notin: False
      have ih: "dict_to_string_comma_separated ?rest bl pre False =
          comma_join False (map (\<lambda>k. comma_entry bl pre k (the (map_of ?rest k)))
            (takeWhile (\<lambda>k. k \<notin> set bl) (sorted_keys ?rest)))"
        using False notin by (intro "1.IH"(2)) simp_all
      have same: "map (\<lambda>k. comma_entry bl pre k (the (map_of ?rest k)))
            (takeWhile (\<lambda>k. k \<notin> set bl) (sorted_keys ?rest))
          = map (\<lambda>k. comma_entry bl pre k (the (map_of in_dict k)))
            (takeWhile (\<lambda>k. k \<notin> set bl) (sorted_keys ?rest))"
      proof (rule map_cong [OF refl])
        fix x assume "x \<in> set (takeWhile (\<lambda>k. k \<notin> set bl) (sorted_keys ?rest))"
        then have "x \<in> set (sorted_keys ?rest)" by (rule set_takeWhileD [THEN conjunct1])
        with sorted_keys_remove_notin [of ?k in_dict] have "x \<noteq> ?k" by auto
        then show "comma_entry bl pre x (the (map_of ?rest x)) =
            comma_entry bl pre x (the (map_of in_dict x))"
          by (simp add: map_of_remove)
      qed
      have "dict_to_string_comma_separated in_dict bl pre first =
          (if first then '''' else '','') @ comma_entry bl pre ?k (the (map_of in_dict ?k))
            @ dict_to_string_comma_separated ?rest bl pre False"
        using False notin
        by (simp add: dict_to_string_comma_separated.simps [of in_dict bl pre first]
            comma_entry_def Let_def split: pyval.splits)
      then show ?thesis
        using notin by (simp add: ih same sorted_keys_Cons [OF False])
    qed
  qed
qed

subsection \<open>The printers on a store\<close>

lemma lookup_dict_prefix:
  "prefix h h' \<Longrightarrow> lookup_dict h a = Some es \<Longrightarrow> lookup_dict h' a = Some es"
  by (auto simp: lookup_dict_def prefix_def nth_append split: if_splits)

lemma lookup_dict_alloc: "lookup_dict (h @ [DictObj es]) (length h) = Some es"
  by (simp add: lookup_dict_def)

lemma pretty_h_empty:
  "lookup_dict h a = Some [] \<Longrightarrow> dict_to_string_pretty_h (Suc fuel) h a indent = Some (h, '''')"
  by (simp add: dict_to_string_pretty_h.simps)

lemma pretty_h_step:
  assumes "lookup_dict h a = Some es" and "es \<noteq> []"
  shows "dict_to_string_pretty_h (Suc fuel) h a indent = Some (h', s) \<longleftrightarrow>
    (\<exists>h1 out es1 s3.
       pretty_entry_h fuel h indent (hd (sort (map fst es)))
         (the (map_of es (hd (sort (map fst es))))) = Some (h1, out)
       \<and> lookup_dict h1 a = Some es1
       \<and> dict_to_string_pretty_h fuel
            (h1 @ [DictObj (filter (\<lambda>(i, _). i \<noteq> hd (sort (map fst es))) es1)])
            (length h1) indent = Some (h', s3)
       \<and> s = out @ s3)"
  using assms
  by (auto simp: dict_to_string_pretty_h.simps pretty_entry_h_def [symmetric] Let_def alloc_def
      split: option.splits prod.splits)

lemma comma_h_empty:
  "lookup_dict h a = Some [] \<Longrightarrow>
   dict_to_string_comma_separated_h (Suc fuel) h a bl pre first = Some (h, '''')"
  by (simp add: dict_to_string_comma_separated_h.simps)

lemma comma_h_excluded:
  "lookup_dict h a = Some es \<Longrightarrow> es \<noteq> [] \<Longrightarrow> hd (sort (map fst es)) \<in> set bl \<Longrightarrow>
   dict_to_string_comma_separated_h (Suc fuel) h a bl pre first = Some (h, '''')"
  by (simp add: dict_to_string_comma_separated_h.simps)

lemma comma_h_stop:
  "lookup_dict h a = Some es \<Longrightarrow> es = [] \<or> hd (sort (map fst es)) \<in> set bl \<Longrightarrow>
   dict_to_string_comma_separated_h (Suc fuel) h a bl pre first = Some (h, '''')"
  by (cases "es = []") (simp_all add: comma_h_empty comma_h_excluded)

lemma comma_h_step:
  assumes "lookup_dict h a = Some es" and "es \<noteq> []" and "hd (sort (map fst es)) \<notin> set bl"
  shows "dict_to_string_comma_separated_h (Suc fuel) h a bl pre first = Some (h', s) \<longleftrightarrow>
    (\<exists>h1 out es1 s3.
       comma_entry_h fuel h bl pre first (hd (sort (map fst es)))
         (the (map_of es (hd (sort (map fst es))))) = Some (h1, out)
       \<and> lookup_dict h1 a = Some es1
       \<and> dict_to_string_comma_separated_h fuel
            (h1 @ [DictObj (filter (\<lambda>(i, _). i \<noteq> hd (sort (map fst es))) es1)])
            (length h1) bl pre False = Some (h', s3)
       \<and> s = out @ s3)"
  using assms
  by (auto simp: dict_to_string_comma_separated_h.simps comma_entry_h_def [symmetric] Let_def
      alloc_def split: option.splits prod.splits)

lemma pretty_h_frame:
  "dict_to_string_pretty_h fuel h a indent = Some (h', s) \<Longrightarrow> prefix h h'"
proof (induction fuel arbitrary: h a indent h' s)
  case 0
  then show ?case by (simp add: dict_to_string_pretty_h.simps)
next
  case (Suc fuel)
  from Suc.prems obtain es where es: "lookup_dict h a = Some es"
    by (auto simp: dict_to_string_pretty_h.simps split: option.splits)
  show ?case
  proof (cases "es = []")
    case True
    with Suc.prems es show ?thesis by (simp add: pretty_h_empty)
  next
    case False
    from Suc.prems obtain h1 out es1 s3 where
      first: "pretty_entry_h fuel h indent (hd (sort (map fst es)))
         (the (map_of es (hd (sort (map fst es))))) = Some (h1, out)"
      and rest: "dict_to_string_pretty_h fuel
            (h1 @ [DictObj (filter (\<lambda>(i, _). i \<noteq> hd (sort (map fst es))) es1)])
            (length h1) indent = Some (h', s3)"
      unfolding pretty_h_step [OF es False] by blast
    from first have "prefix h h1"
      by (auto simp: pretty_entry_h_def split: hval.splits option.splits prod.splits
          dest: Suc.IH)
    moreover from rest
    have "prefix (h1 @ [DictObj (filter (\<lambda>(i, _). i \<noteq> hd (sort (map fst es))) es1)]) h'"
      by (rule Suc.IH)
    then have "prefix h1 h'" by (rule append_prefixD)
    ultimately show ?thesis by (rule prefix_order.trans)
  qed
qed

lemma comma_h_frame:
  "dict_to_string_comma_separated_h fuel h a bl pre first = Some (h', s) \<Longrightarrow> prefix h h'"
proof (induction fuel arbitrary: h a pre first h' s)
  case 0
  then show ?case by (simp add: dict_to_string_comma_separated_h.simps)
next
  case (Suc fuel)
  from Suc.prems obtain es where es: "lookup_dict h a = Some es"
    by (auto simp: dict_to_string_comma_separated_h.simps split: option.splits)
  show ?case
  proof (cases "es = [] \<or> hd (sort (map fst es)) \<in> set bl")
    case True
    with Suc.prems es show ?thesis
      by (simp add: comma_h_stop)
  next
    case False
    then have ne: "es \<noteq> []" and notin: "hd (sort (map fst es)) \<notin> set bl" by simp_all
    from Suc.prems obtain h1 out es1 s3 where
      first: "comma_entry_h fuel h bl pre first (hd (sort (map fst es)))
         (the (map_of es (hd (sort (map fst es))))) = Some (h1, out)"
      and rest: "dict_to_string_comma_separated_h fuel
            (h1 @ [DictObj (filter (\<lambda>(i, _). i \<noteq> hd (sort (map fst es))) es1)])
            (length h1) bl pre False = Some (h', s3)"
      unfolding comma_h_step [OF es ne notin] by blast
    from first have "prefix h h1"
      by (auto simp: comma_entry_h_def split: hval.splits option.splits prod.splits
          dest: Suc.IH)
    moreover from rest
    have "prefix (h1 @ [DictObj (filter (\<lambda>(i, _). i \<noteq> hd (sort (map fst es))) es1)]) h'"
      by (rule Suc.IH)
    then have "prefix h1 h'" by (rule append_prefixD)
    ultimately show ?thesis by (rule prefix_order.trans)
  qed
qed

lemma pretty_h_fuel_Suc:
  "dict_to_string_pretty_h fuel h a indent = Some r \<Longrightarrow>
   dict_to_string_pretty_h (Suc fuel) h a indent = Some r"
proof (induction fuel arbitrary: h a indent r)
  case 0
  then show ?case by (simp add: dict_to_string_pretty_h.simps)
next
  case (Suc fuel)
  obtain h' s where r: "r = (h', s)" by (cases r)
  from Suc.prems obtain es where es: "lookup_dict h a = Some es"
    by (auto simp: dict_to_string_pretty_h.simps split: option.splits)
  show ?case
  proof (cases "es = []")
    case True
    with Suc.prems es show ?thesis by (simp add: pretty_h_empty)
  next
    case False
    from Suc.prems obtain h1 out es1 s3 where
      first: "pretty_entry_h fuel h indent (hd (sort (map fst es)))
         (the (map_of es (hd (sort (map fst es))))) = Some (h1, out)"
      and es1: "lookup_dict h1 a = Some es1"
      and rest: "dict_to_string_pretty_h fuel
            (h1 @ [DictObj (filter (\<lambda>(i, _). i \<noteq> hd (sort (map fst es))) es1)])
            (length h1) indent = Some (h', s3)"
      and s: "s = out @ s3"
      unfolding r pretty_h_step [OF es False] by blast
    from first have "pretty_entry_h (Suc fuel) h indent (hd (sort (map fst es)))
         (the (map_of es (hd (sort (map fst es))))) = Some (h1, out)"
      by (auto simp: pretty_entry_h_def Suc.IH split: hval.splits option.splits prod.splits)
    moreover from rest have "dict_to_string_pretty_h (Suc fuel)
            (h1 @ [DictObj (filter (\<lambda>(i, _). i \<noteq> hd (sort (map fst es))) es1)])
            (length h1) indent = Some (h', s3)"
      by (rule Suc.IH)
    ultimately show ?thesis
      unfolding r pretty_h_step [OF es False] using es1 s by blast
  qed
qed

lemma pretty_h_fuel_mono:
  "dict_to_string_pretty_h fuel h a indent = Some r \<Longrightarrow> fuel \<le> fuel' \<Longrightarrow>
   dict_to_string_pretty_h fuel' h a indent = Some r"
  by (induction fuel' ) (auto simp: le_Suc_eq pretty_h_fuel_Suc)

lemma comma_h_fuel_Suc:
  "dict_to_string_comma_separated_h fuel h a bl pre first = Some r \<Longrightarrow>
   dict_to_string_comma_separated_h (Suc fuel) h a bl pre first = Some r"
proof (induction fuel arbitrary: h a pre first r)
  case 0
  then show ?case by (simp add: dict_to_string_comma_separated_h.simps)
next
  case (Suc fuel)
  obtain h' s where r: "r = (h', s)" by (cases r)
  from Suc.prems obtain es where es: "lookup_dict h a = Some es"
    by (auto simp: dict_to_string_comma_separated_h.simps split: option.splits)
  show ?case
  proof (cases "es = [] \<or> hd (sort (map fst es)) \<in> set bl")
    case True
    with Suc.prems es show ?thesis
      by (simp add: comma_h_stop)
  next
    case False
    then have ne: "es \<noteq> []" and notin: "hd (sort (map fst es)) \<notin> set bl" by simp_all
    from Suc.prems obtain h1 out es1 s3 where
      first: "comma_entry_h fuel h bl pre first (hd (sort (map fst es)))
         (the (map_of es (hd (sort (map fst es))))) = Some (h1, out)"
      and es1: "lookup_dict h1 a = Some es1"
      and rest: "dict_to_string_comma_separated_h fuel
            (h1 @ [DictObj (filter (\<lambda>(i, _). i \<noteq> hd (sort (map fst es))) es1)])
            (length h1) bl pre False = Some (h', s3)"
      and s: "s = out @ s3"
      unfolding r comma_h_step [OF es ne notin] by blast
    from first have "comma_entry_h (Suc fuel) h bl pre first (hd (sort (map fst es)))
         (the (map_of es (hd (sort (map fst es))))) = Some (h1, out)"
      by (auto simp: comma_entry_h_def Suc.IH split: hval.splits option.splits prod.splits)
    moreover from rest have "dict_to_string_comma_separated_h (Suc fuel)
            (h1 @ [DictObj (filter (\<lambda>(i, _). i \<noteq> hd (sort (map fst es))) es1)])
            (length h1) bl pre False = Some (h', s3)"
      by (rule Suc.IH)
    ultimately show ?thesis
      unfolding r comma_h_step [OF es ne notin] using es1 s by blast
  qed
qed

lemma comma_h_fuel_mono:
  "dict_to_string_comma_separated_h fuel h a bl pre first = Some r \<Longrightarrow> fuel \<le> fuel' \<Longrightarrow>
   dict_to_string_comma_separated_h fuel' h a bl pre first = Some r"
  by (induction fuel') (auto simp: le_Suc_eq comma_h_fuel_Suc)

lemma dict_at_iff: "dict_at h a d \<longleftrightarrow> (\<exists>es. lookup_dict h a = Some es \<and> repr_entries h es d)"
  by (simp add: dict_at_def repr_entries_def split: option.splits)

lemma repr_val_prefix: "prefix h h' \<Longrightarrow> repr_val h hv v \<Longrightarrow> repr_val h' hv v"
proof (induction h hv v rule: repr_val.induct)
  case (2 h a d)
  from "2.prems"(2) obtain es where es: "lookup_dict h a = Some es"
    and rel: "list_all2 (\<lambda>e x. fst e = fst x \<and> repr_val h (snd e) (snd x)) es d"
    by (auto split: option.splits)
  from rel have "list_all2 (\<lambda>e x. fst e = fst x \<and> repr_val h' (snd e) (snd x)) es d"
    by (rule list.rel_mono_strong) (use "2.IH" [OF es] "2.prems"(1) in auto)
  with lookup_dict_prefix [OF "2.prems"(1) es] show ?case by simp
qed simp_all

lemma repr_entries_prefix: "prefix h h' \<Longrightarrow> repr_entries h es d \<Longrightarrow> repr_entries h' es d"
  unfolding repr_entries_def
  by (erule list.rel_mono_strong) (auto intro: repr_val_prefix)

lemma dict_at_prefix: "prefix h h' \<Longrightarrow> dict_at h a d \<Longrightarrow> dict_at h' a d"
  by (auto simp: dict_at_iff intro: lookup_dict_prefix repr_entries_prefix)

lemma repr_entries_keys: "repr_entries h es d \<Longrightarrow> map fst es = map fst d"
  unfolding repr_entries_def by (induction rule: list_all2_induct) auto

lemma repr_entries_lookup:
  "repr_entries h es d \<Longrightarrow> k \<in> fst ` set d \<Longrightarrow>
   repr_val h (the (map_of es k)) (the (map_of d k))"
  unfolding repr_entries_def by (induction rule: list_all2_induct) auto

lemma repr_entries_filter:
  "repr_entries h es d \<Longrightarrow>
   repr_entries h (filter (\<lambda>(i, _). i \<noteq> k) es) (filter (\<lambda>(i, _). i \<noteq> k) d)"
  unfolding repr_entries_def by (induction rule: list_all2_induct) (auto simp: case_prod_beta)

lemma repr_entries_Nil: "repr_entries h es [] \<longleftrightarrow> es = []"
  by (simp add: repr_entries_def)

lemma pretty_unfold:
  "in_dict \<noteq> [] \<Longrightarrow>
   dict_to_string_pretty in_dict indent =
     pretty_entry indent (hd (sort (map fst in_dict)))
         (the (map_of in_dict (hd (sort (map fst in_dict)))))
       @ dict_to_string_pretty
           (filter (\<lambda>(i, _). i \<noteq> hd (sort (map fst in_dict))) in_dict) indent"
  by (simp add: dict_to_string_pretty.simps [of in_dict indent] pretty_entry_def Let_def
      split: pyval.splits)

lemma comma_unfold:
  "in_dict \<noteq> [] \<Longrightarrow> hd (sort (map fst in_dict)) \<notin> set bl \<Longrightarrow>
   dict_to_string_comma_separated in_dict bl pre first =
     ((if \<not> first then '','' else '''')
        @ comma_entry bl pre (hd (sort (map fst in_dict)))
            (the (map_of in_dict (hd (sort (map fst in_dict))))))
       @ dict_to_string_comma_separated
           (filter (\<lambda>(i, _). i \<noteq> hd (sort (map fst in_dict))) in_dict) bl pre False"
  by (simp add: dict_to_string_comma_separated.simps [of in_dict bl pre first] comma_entry_def
      Let_def split: pyval.splits)

lemma comma_stop:
  "in_dict = [] \<or> hd (sort (map fst in_dict)) \<in> set bl \<Longrightarrow>
   dict_to_string_comma_separated in_dict bl pre first = ''''"
  by (auto simp: dict_to_string_comma_separated.simps [of in_dict bl pre first] Let_def)

lemma pretty_entry_h_fuel_mono:
  "pretty_entry_h fuel h indent k hv = Some r \<Longrightarrow> fuel \<le> fuel' \<Longrightarrow>
   pretty_entry_h fuel' h indent k hv = Some r"
  by (auto simp: pretty_entry_h_def split: hval.splits option.splits prod.splits
      dest: pretty_h_fuel_mono)

lemma comma_entry_h_fuel_mono:
  "comma_entry_h fuel h bl pre first k hv = Some r \<Longrightarrow> fuel \<le> fuel' \<Longrightarrow>
   comma_entry_h fuel' h bl pre first k hv = Some r"
  by (auto simp: comma_entry_h_def split: hval.splits option.splits prod.splits
      dest: comma_h_fuel_mono)

lemma pretty_entry_h_frame:
  "pretty_entry_h fuel h indent k hv = Some (h1, out) \<Longrightarrow> prefix h h1"
  by (auto simp: pretty_entry_h_def split: hval.splits option.splits prod.splits
      dest: pretty_h_frame)

lemma comma_entry_h_frame:
  "comma_entry_h fuel h bl pre first k hv = Some (h1, out) \<Longrightarrow> prefix h h1"
  by (auto simp: comma_entry_h_def split: hval.splits option.splits prod.splits
      dest: comma_h_frame)

lemma pretty_h_adequate:
  "dict_at h a d \<Longrightarrow>
   \<exists>fuel h'. dict_to_string_pretty_h fuel h a indent = Some (h', dict_to_string_pretty d indent)"
proof (induction d indent arbitrary: h a rule: dict_to_string_pretty.induct)
  case (1 in_dict indent)
  from "1.prems" obtain es where es: "lookup_dict h a = Some es"
    and rel: "repr_entries h es in_dict"
    by (auto simp: dict_at_iff)
  show ?case
  proof (cases "in_dict = []")
    case True
    with rel have "es = []" by (simp add: repr_entries_Nil)
    with es True have "dict_to_string_pretty_h (Suc 0) h a indent =
        Some (h, dict_to_string_pretty in_dict indent)"
      by (simp add: pretty_h_empty dict_to_string_pretty.simps [of "[]"])
    then show ?thesis by blast
  next
    case False
    let ?k = "hd (sort (map fst in_dict))"
    let ?v = "the (map_of in_dict ?k)"
    let ?hv = "the (map_of es ?k)"
    let ?rest = "filter (\<lambda>(i, _). i \<noteq> ?k) in_dict"
    from rel have keys: "map fst es = map fst in_dict" by (rule repr_entries_keys)
    with False have ne: "es \<noteq> []" by auto
    have rv: "repr_val h ?hv ?v"
      using rel least_key_in [OF False] by (rule repr_entries_lookup)
    have "\<exists>f1 h1. pretty_entry_h f1 h indent ?k ?hv = Some (h1, pretty_entry indent ?k ?v)"
    proof (cases ?v)
      case (Scalar s)
      with rv have "?hv = HScalar s" by (cases ?hv) simp_all
      with Scalar show ?thesis by (simp add: pretty_entry_h_def pretty_entry_def)
    next
      case (Dict d')
      with rv obtain b where hv: "?hv = HRef b" and at: "dict_at h b d'"
        by (cases ?hv) (simp_all add: dict_at_def)
      from False Dict at obtain f1 h1 where
        "dict_to_string_pretty_h f1 h b (indent + 1) =
           Some (h1, dict_to_string_pretty d' (indent + 1))"
        using "1.IH"(1) [of ?k ?v d' h b] by auto
      with hv Dict
      have "pretty_entry_h f1 h indent ?k ?hv = Some (h1, pretty_entry indent ?k ?v)"
        by (simp add: pretty_entry_h_def pretty_entry_def)
      then show ?thesis by blast
    qed
    then obtain f1 h1 where
      first: "pretty_entry_h f1 h indent ?k ?hv = Some (h1, pretty_entry indent ?k ?v)"
      by blast
    then have p1: "prefix h h1" by (rule pretty_entry_h_frame)
    then have es1: "lookup_dict h1 a = Some es" using es by (rule lookup_dict_prefix)
    let ?h2 = "h1 @ [DictObj (filter (\<lambda>(i, _). i \<noteq> ?k) es)]"
    from p1 have "prefix h ?h2" by (simp add: prefix_def) auto
    then have "repr_entries ?h2 (filter (\<lambda>(i, _). i \<noteq> ?k) es) ?rest"
      using repr_entries_filter [OF rel] by (rule repr_entries_prefix)
    then have "dict_at ?h2 (length h1) ?rest"
      by (auto simp: dict_at_iff lookup_dict_alloc)
    with False obtain f2 h3 where
      rest: "dict_to_string_pretty_h f2 ?h2 (length h1) indent =
        Some (h3, dict_to_string_pretty ?rest indent)"
      using "1.IH"(2) [of ?k ?v _ ?h2 "length h1"] by auto
    let ?f = "max f1 f2"
    from first have "pretty_entry_h ?f h indent ?k ?hv = Some (h1, pretty_entry indent ?k ?v)"
      by (rule pretty_entry_h_fuel_mono) simp
    moreover from rest have "dict_to_string_pretty_h ?f ?h2 (length h1) indent =
        Some (h3, dict_to_string_pretty ?rest indent)"
      by (rule pretty_h_fuel_mono) simp
    ultimately have "dict_to_string_pretty_h (Suc ?f) h a indent =
        Some (h3, pretty_entry indent ?k ?v @ dict_to_string_pretty ?rest indent)"
      unfolding pretty_h_step [OF es ne] keys using es1 by blast
    then show ?thesis
      unfolding pretty_unfold [OF False] by blast
  qed
qed

lemma comma_h_adequate:
  "dict_at h a d \<Longrightarrow>
   \<exists>fuel h'. dict_to_string_comma_separated_h fuel h a bl pre first =
     Some (h', dict_to_string_comma_separated d bl pre first)"
proof (induction d bl pre first arbitrary: h a rule: dict_to_string_comma_separated.induct)
  case (1 in_dict bl pre first)
  from "1.prems" obtain es where es: "lookup_dict h a = Some es"
    and rel: "repr_entries h es in_dict"
    by (auto simp: dict_at_iff)
  from rel have keys: "map fst es = map fst in_dict" by (rule repr_entries_keys)
  show ?case
  proof (cases "in_dict = [] \<or> hd (sort (map fst in_dict)) \<in> set bl")
    case True
    with keys have "es = [] \<or> hd (sort (map fst es)) \<in> set bl" by auto
    with es have "dict_to_string_comma_separated_h (Suc 0) h a bl pre first = Some (h, '''')"
      by (rule comma_h_stop)
    with True show ?thesis by (metis comma_stop)
  next
    case stop: False
    then have False: "in_dict \<noteq> []" and notin: "hd (sort (map fst in_dict)) \<notin> set bl"
      by simp_all
    let ?k = "hd (sort (map fst in_dict))"
    let ?v = "the (map_of in_dict ?k)"
    let ?hv = "the (map_of es ?k)"
    let ?rest = "filter (\<lambda>(i, _). i \<noteq> ?k) in_dict"
    let ?out = "(if \<not> first then '','' else '''') @ comma_entry bl pre ?k ?v"
    from keys False have ne: "es \<noteq> []" by auto
    have rv: "repr_val h ?hv ?v"
      using rel least_key_in [OF False] by (rule repr_entries_lookup)
    have "\<exists>f1 h1. comma_entry_h f1 h bl pre first ?k ?hv = Some (h1, ?out)"
    proof (cases ?v)
      case (Scalar s)
      with rv have "?hv = HScalar s" by (cases ?hv) simp_all
      with Scalar show ?thesis by (simp add: comma_entry_h_def comma_entry_def)
    next
      case (Dict d')
      with rv obtain b where hv: "?hv = HRef b" and at: "dict_at h b d'"
        by (cases ?hv) (simp_all add: dict_at_def)
      from False notin Dict at obtain f1 h1 where
        "dict_to_string_comma_separated_h f1 h b bl (?k @ ''.'') True =
           Some (h1, dict_to_string_comma_separated d' bl (?k @ ''.'') True)"
        using "1.IH"(1) [of ?k ?v _ d' h b] by auto
      with hv Dict
      have "comma_entry_h f1 h bl pre first ?k ?hv = Some (h1, ?out)"
        by (simp add: comma_entry_h_def comma_entry_def)
      then show ?thesis by blast
    qed
    then obtain f1 h1 where
      first: "comma_entry_h f1 h bl pre first ?k ?hv = Some (h1, ?out)"
      by blast
    then have p1: "prefix h h1" by (rule comma_entry_h_frame)
    then have es1: "lookup_dict h1 a = Some es" using es by (rule lookup_dict_prefix)
    let ?h2 = "h1 @ [DictObj (filter (\<lambda>(i, _). i \<noteq> ?k) es)]"
    from p1 have "prefix h ?h2" by (simp add: prefix_def) auto
    then have "repr_entries ?h2 (filter (\<lambda>(i, _). i \<noteq> ?k) es) ?rest"
      using repr_entries_filter [OF rel] by (rule repr_entries_prefix)
    then have "dict_at ?h2 (length h1) ?rest"
      by (auto simp: dict_at_iff lookup_dict_alloc)
    then have "\<exists>f2 h3. dict_to_string_comma_separated_h f2 ?h2 (length h1) bl pre False =
        Some (h3, dict_to_string_comma_separated ?rest bl pre False)"
      using False notin by (intro "1.IH"(2) [OF _ refl refl _ refl refl]) simp_all
    then obtain f2 h3 where
      rest: "dict_to_string_comma_separated_h f2 ?h2 (length h1) bl pre False =
        Some (h3, dict_to_string_comma_separated ?rest bl pre False)"
      by blast
    let ?f = "max f1 f2"
    from first have "comma_entry_h ?f h bl pre first ?k ?hv = Some (h1, ?out)"
      by (rule comma_entry_h_fuel_mono) simp
    moreover from rest
    have "dict_to_string_comma_separated_h ?f ?h2 (length h1) bl pre False =
        Some (h3, dict_to_string_comma_separated ?rest bl pre False)"
      by (rule comma_h_fuel_mono) simp
    moreover from notin keys have "hd (sort (map fst es)) \<notin> set bl" by simp
    ultimately have "dict_to_string_comma_separated_h (Suc ?f) h a bl pre first =
        Some (h3, ?out @ dict_to_string_comma_separated ?rest bl pre False)"
      unfolding comma_h_step [OF es ne \<open>hd (sort (map fst es)) \<notin> set bl\<close>] keys
      using es1 by blast
    then show ?thesis
      unfolding comma_unfold [OF False notin] by blast
  qed
qed

lemma raw_bytes_loop_h_eq:
  "lookup_list h a = Some bs \<Longrightarrow> \<forall>i \<in> set is. i < length bs \<Longrightarrow>
   raw_bytes_loop_h h a is acc = Some (h, foldl (raw_bytes_step bs) acc is)"
  by (induction "is" arbitrary: acc) auto

lemma raw_bytes_loop_h_frame:
  "raw_bytes_loop_h h a is acc = Some (h', s) \<Longrightarrow> h' = h"
  by (induction "is" arbitrary: acc) (auto split: option.splits if_splits)

lemma raw_h_eq:
  "lookup_list h a = Some bs \<Longrightarrow>
   raw_bytes_to_string_pretty_h h a = Some (h, raw_bytes_to_string_pretty bs)"
  by (simp add: raw_bytes_to_string_pretty_h_def raw_bytes_to_string_pretty_def
      raw_bytes_loop_h_eq)

lemma raw_h_frame: "raw_bytes_to_string_pretty_h h a = Some (h', s) \<Longrightarrow> h' = h"
  by (auto simp: raw_bytes_to_string_pretty_h_def split: option.splits
      dest: raw_bytes_loop_h_frame)

section \<open>Claims\<close>

subsection \<open>C1: excluded keys in the one-line rendering\<close>

text \<open>
  Claim C1 says that the one-line rendering omits each excluded key with its subtree
  and nothing else, so that every pair that is not excluded still appears. The code
  ends the rendering of a dictionary at its first excluded key (it returns the empty
  string there), which drops the keys after it in ascending order as well. For
  interface data with the keys \<^verbatim>\<open>Connector\<close>, \<^verbatim>\<open>EncodingCodes\<close> and \<^verbatim>\<open>VendorName\<close> and the
  exclusion list of the \<^verbatim>\<open>eeprom\<close> command, the rendering is \<^verbatim>\<open>Connector:LC\<close>: the pair
  \<^verbatim>\<open>VendorName:ACME\<close>, which is not excluded, is missing, while without exclusions
  all three pairs are written.
\<close>

theorem C1_excluded_key_drops_later_keys:
  "dict_to_string_comma_separated vendor_data ifdata_out_blacklist '''' True = ''Connector:LC''
   \<and> ''VendorName'' \<notin> set ifdata_out_blacklist
   \<and> dict_to_string_comma_separated vendor_data [] '''' True
       = ''Connector:LC,EncodingCodes:64B66B,VendorName:ACME''"
  by (simp add: vendor_data_def ifdata_out_blacklist_def eval_simps)

subsection \<open>C2: the one-line example\<close>

text \<open>
  Claim C2, as stated: the mapping \<^verbatim>\<open>{"VendorName": "ACME", "Temp": {"High": 70, "Low": -5}}\<close>
  with exclusion set \<^verbatim>\<open>{"Temp.Low"}\<close> renders one-line as \<^verbatim>\<open>VendorName:ACME,Temp.High:70\<close>.
  The code does not produce that string.
\<close>

theorem C2_example_counterexample:
  "dict_to_string_comma_separated acme_data [''Temp.Low''] '''' True
     \<noteq> ''VendorName:ACME,Temp.High:70''"
  by (simp add: acme_data_def str_int_def eval_simps)

text \<open>
  Claim C2, amended: for that mapping and the exclusion set \<^verbatim>\<open>{"Temp.Low"}\<close> the one-line
  rendering is exactly \<^verbatim>\<open>Temp.High:70,Temp.Low:-5,VendorName:ACME\<close>. Keys are taken in
  ascending order (\<^verbatim>\<open>Temp\<close> before \<^verbatim>\<open>VendorName\<close>), and the exclusion set is compared
  with the bare key of each entry, never with a dotted path, so \<^verbatim>\<open>Temp.Low\<close> excludes
  nothing here.
\<close>

theorem C2_example_amended:
  "dict_to_string_comma_separated acme_data [''Temp.Low''] '''' True
     = ''Temp.High:70,Temp.Low:-5,VendorName:ACME''"
  by (simp add: acme_data_def str_int_def eval_simps)

subsection \<open>C3: the multi-line renderer stops after the first lane\<close>

text \<open>
  Claim C3. In pretty multi-line mode, for every ganged logical port (a port of the
  table with two or more physical lanes), the renderer returns after the first lane:
  its result is the result of one pass of the loop body on the first lane, named
  \<^verbatim>\<open>{l}:1 (ganged)\<close>, and nothing of a later lane. When the first lane is readable,
  the returned text is exactly the block of that lane.
\<close>

theorem C3_pretty_first_lane_only:
  assumes "prefix ''Ethernet'' l" and "is_logical_port plat l"
    and "get_logical_to_physical plat l = p # q # rest"
  shows "port_eeprom_data_string_pretty plat l dump_dom =
           bind_err (pretty_lane plat l dump_dom True 1 p '''') (\<lambda>block. Inr ([], Some block))
         \<and> (lane_readable plat dump_dom p \<longrightarrow>
              port_eeprom_data_string_pretty plat l dump_dom =
                Inr ([], Some (pretty_block plat (l @ '':1 (ganged)'') dump_dom p)))"
proof -
  from assms have r: "logical_port_name_to_physical_port_list plat l =
      Inr ([], Some (p # q # rest))"
    by (simp add: resolver_logical)
  have a: "port_eeprom_data_string_pretty plat l dump_dom =
      bind_err (pretty_lane plat l dump_dom True 1 p '''') (\<lambda>block. Inr ([], Some block))"
    using resolver_cases [OF r, of dump_dom] by simp
  have "port_eeprom_data_string_pretty plat l dump_dom =
      Inr ([], Some (pretty_block plat (l @ '':1 (ganged)'') dump_dom p))"
    if "lane_readable plat dump_dom p"
    using pretty_lane_eq [OF that, of l True 1 "''''"] a
    by (simp add: bind_err_def display_name_def str_int_1)
  with a show ?thesis by blast
qed

theorem C3_pretty_first_lane_only_witness:
  "prefix ''Ethernet'' ''Ethernet0'' \<and> is_logical_port example_platform ''Ethernet0''
   \<and> get_logical_to_physical example_platform ''Ethernet0'' = 5 # 6 # []
   \<and> lane_readable example_platform False 5
   \<and> port_eeprom_data_string_pretty example_platform ''Ethernet0'' False =
       Inr ([], Some (pretty_block example_platform ''Ethernet0:1 (ganged)'' False 5))
   \<and> pretty_block example_platform ''Ethernet0:1 (ganged)'' False 5 =
       ''Ethernet0:1 (ganged): SFP EEPROM detected\<newline>''
         @ [CHR 0x09] @ ''Temp:\<newline>''
         @ [CHR 0x09, CHR 0x09] @ ''High: 70\<newline>''
         @ [CHR 0x09, CHR 0x09] @ ''Low: -5\<newline>''
         @ [CHR 0x09] @ ''VendorName: ACME\<newline>\<newline>''"
proof -
  have a: "prefix ''Ethernet'' ''Ethernet0''" by simp
  have b: "is_logical_port example_platform ''Ethernet0''"
    by (simp add: example_platform_def)
  have c: "get_logical_to_physical example_platform ''Ethernet0'' = 5 # 6 # []"
    by (simp add: example_platform_def)
  have d: "lane_readable example_platform False 5"
    by (simp add: lane_readable_def lane_eeprom_dict_def example_platform_def
        eeprom_record_ok_def data_of_def)
  have e: "pretty_block example_platform ''Ethernet0:1 (ganged)'' False 5 =
       ''Ethernet0:1 (ganged): SFP EEPROM detected\<newline>''
         @ [CHR 0x09] @ ''Temp:\<newline>''
         @ [CHR 0x09, CHR 0x09] @ ''High: 70\<newline>''
         @ [CHR 0x09, CHR 0x09] @ ''Low: -5\<newline>''
         @ [CHR 0x09] @ ''VendorName: ACME\<newline>\<newline>''"
    by (simp add: pretty_block_def lane_eeprom_dict_def example_platform_def pretty_data_def
        data_of_def acme_data_def str_int_def eval_simps)
  from C3_pretty_first_lane_only [OF a b c, of False] d
  have "port_eeprom_data_string_pretty example_platform ''Ethernet0'' False =
       Inr ([], Some (pretty_block example_platform (''Ethernet0'' @ '':1 (ganged)'') False 5))"
    by blast
  with a b c d e show ?thesis by simp
qed

subsection \<open>C4: lines of the one-line renderer\<close>

text \<open>
  Claim C4, as stated: in pretty one-line mode a lane without a detected EEPROM
  contributes nothing to the output, and the renderer produces exactly one line per
  logical port. On the example platform the port \<^verbatim>\<open>Ethernet0\<close> has lane 5 detected
  and lane 6 not detected; the claim gives the single line of lane 5, the code gives
  that line followed by an empty line for lane 6.
\<close>

theorem C4_counterexample:
  "port_eeprom_data_string_pretty_oneline example_platform ''Ethernet0'' [] [] False =
     Inr ([], Some ''port:Ethernet0:1 (ganged),Temp.High:70,Temp.Low:-5,VendorName:ACME\<newline>\<newline>'')
   \<and> lane_eeprom_dict example_platform 6 = None
   \<and> port_eeprom_data_string_pretty_oneline example_platform ''Ethernet0'' [] [] False \<noteq>
     Inr ([], Some ''port:Ethernet0:1 (ganged),Temp.High:70,Temp.Low:-5,VendorName:ACME\<newline>'')"
  by (simp add: port_eeprom_data_string_pretty_oneline_def
      logical_port_name_to_physical_port_list_def example_platform_def bind_err_def
      oneline_lane_def lane_eeprom_dict_def py_get_def dict_to_string_comma_separated_obj_def
      get_physical_port_name_def str_int_def eval_simps acme_data_def)

text \<open>
  Claim C4, amended: in pretty one-line mode, when every lane of the port is readable,
  the output is the lines of the lanes in resolver order, one line per physical lane,
  each ended by a line break. A lane without a detected EEPROM contributes no status
  line and no data, but still its line break (an empty line). So the output is one
  line per logical port exactly when the port resolves to one lane.
\<close>

theorem C4_oneline_lines:
  "(logical_port_name_to_physical_port_list plat l = Inr (echo, Some ps)
      \<and> (\<forall>p \<in> set ps. lane_readable plat dump_dom p) \<longrightarrow>
    port_eeprom_data_string_pretty_oneline plat l b1 b2 dump_dom =
      Inr (echo, Some (concat (map
        (\<lambda>(i, p). oneline_line plat (display_name l (length ps > 1) i) b1 b2 dump_dom p)
        (enumerate 1 ps)))))
   \<and> (lane_eeprom_dict plat q = None \<longrightarrow> oneline_line plat n b1 b2 dump_dom q = ''\<newline>'')
   \<and> last (oneline_line plat n b1 b2 dump_dom q) = CHR 0x0A"
proof (intro conjI impI)
  assume a: "logical_port_name_to_physical_port_list plat l = Inr (echo, Some ps)
      \<and> (\<forall>p \<in> set ps. lane_readable plat dump_dom p)"
  then have "oneline_loop plat l b1 b2 dump_dom (length ps > 1) ps (int 1) '''' =
     Inr ('''' @ concat (map
        (\<lambda>(i, p). oneline_line plat (display_name l (length ps > 1) i) b1 b2 dump_dom p)
        (enumerate 1 ps)))"
    by (intro oneline_loop_eq) simp
  with a show "port_eeprom_data_string_pretty_oneline plat l b1 b2 dump_dom =
      Inr (echo, Some (concat (map
        (\<lambda>(i, p). oneline_line plat (display_name l (length ps > 1) i) b1 b2 dump_dom p)
        (enumerate 1 ps))))"
    by (simp add: port_eeprom_data_string_pretty_oneline_def bind_err_def)
next
  assume "lane_eeprom_dict plat q = None"
  then show "oneline_line plat n b1 b2 dump_dom q = ''\<newline>''"
    by (simp add: oneline_line_def)
next
  show "last (oneline_line plat n b1 b2 dump_dom q) = CHR 0x0A"
    by (simp add: oneline_line_def)
qed

theorem C4_oneline_lines_witness:
  "logical_port_name_to_physical_port_list example_platform ''Ethernet0'' = Inr ([], Some [5, 6])
   \<and> lane_readable example_platform False 5
   \<and> lane_readable example_platform False 6
   \<and> lane_eeprom_dict example_platform 6 = None
   \<and> oneline_line example_platform ''Ethernet0:2 (ganged)'' [] [] False 6 = ''\<newline>''
   \<and> port_eeprom_data_string_pretty_oneline example_platform ''Ethernet0'' [] [] False =
       Inr ([], Some (oneline_line example_platform ''Ethernet0:1 (ganged)'' [] [] False 5
                    @ oneline_line example_platform ''Ethernet0:2 (ganged)'' [] [] False 6))"
proof -
  have a: "logical_port_name_to_physical_port_list example_platform ''Ethernet0'' =
      Inr ([], Some [5, 6])"
    by (simp add: logical_port_name_to_physical_port_list_def example_platform_def)
  have b: "\<forall>p \<in> set [5, 6]. lane_readable example_platform False p"
    by (simp add: lane_readable_def lane_eeprom_dict_def example_platform_def
        eeprom_record_ok_def data_of_def)
  have c: "lane_eeprom_dict example_platform 6 = None"
    by (simp add: lane_eeprom_dict_def example_platform_def)
  from C4_oneline_lines
      [where plat = example_platform and l = "''Ethernet0''" and echo = "[]"
        and ps = "[5, 6]" and dump_dom = False and q = 6 and ?b1.0 = "[]" and ?b2.0 = "[]"
        and n = "''Ethernet0:2 (ganged)''"] a b c
  have "port_eeprom_data_string_pretty_oneline example_platform ''Ethernet0'' [] [] False =
      Inr ([], Some (concat (map
        (\<lambda>(i, p). oneline_line example_platform
           (display_name ''Ethernet0'' (length [5 :: int, 6] > 1) i) [] [] False p)
        (enumerate 1 [5, 6]))))"
    and "oneline_line example_platform ''Ethernet0:2 (ganged)'' [] [] False 6 = ''\<newline>''"
    by blast+
  with a b c show ?thesis by (simp add: display_name_def str_int_def eval_simps)
qed

subsection \<open>C5: layout of the raw hex rendering\<close>

text \<open>
  Claim C5, as stated: the raw hex rendering inserts an extra space after every 8th
  token and a line break after every 16 tokens. The code writes both separators in
  front of the next token, so nothing but its one space follows the last token:
  sixteen tokens render as one row with no line break at all, and eight tokens render
  with no extra space after the eighth.
\<close>

theorem C5_counterexample:
  "length sixteen_bytes = 16
   \<and> raw_bytes_to_string_pretty sixteen_bytes
       = ''00 01 02 03 04 05 06 07  08 09 0a 0b 0c 0d 0e 0f ''
   \<and> CHR 0x0A \<notin> set (raw_bytes_to_string_pretty sixteen_bytes)
   \<and> raw_bytes_to_string_pretty (take 8 sixteen_bytes) = ''00 01 02 03 04 05 06 07 ''"
  by (simp add: sixteen_bytes_def raw_bytes_to_string_pretty_def raw_bytes_step_def upt_rec)

text \<open>
  Claim C5, amended. For every sequence \<open>bs\<close> of byte tokens, the raw hex rendering
  is the tokens in order, each followed by one space; the token number \<open>8k\<close> is
  followed by an extra space and the token number \<open>16k\<close> by a line break as well,
  wherever another token follows. When the tokens are non-empty and free of
  separators, the tokens of the rendering are exactly \<open>bs\<close>, so there are exactly
  \<open>length bs\<close> of them. The ten tokens \<^verbatim>\<open>01\<close> to \<^verbatim>\<open>0a\<close> render as
  \<^verbatim>\<open>01 02 03 04 05 06 07 08  09 0a \<close> with no line break.
\<close>

theorem C5_raw_bytes_layout:
  "raw_bytes_to_string_pretty bs =
     concat (map (\<lambda>i. bs ! i @ '' ''
                 @ (if Suc i < length bs \<and> Suc i mod 8 = 0 then '' '' else '''')
                 @ (if Suc i < length bs \<and> Suc i mod 16 = 0 then ''\<newline>'' else ''''))
       [0..<length bs])
   \<and> ((\<forall>t \<in> set bs. t \<noteq> [] \<and> (\<forall>c \<in> set t. \<not> is_sep c))
        \<longrightarrow> hex_tokens (raw_bytes_to_string_pretty bs) = bs)
   \<and> raw_bytes_to_string_pretty
        [''01'', ''02'', ''03'', ''04'', ''05'', ''06'', ''07'', ''08'', ''09'', ''0a'']
       = ''01 02 03 04 05 06 07 08  09 0a ''"
proof (intro conjI impI)
  have "raw_bytes_to_string_pretty bs =
      concat (map (\<lambda>i. bs ! i @ '' ''
        @ (if Suc i < length bs then sep_before (Suc i) else '''')) [0..<length bs])"
    using before_after [of "length bs" "length bs" bs]
    by (simp add: raw_bytes_before_form)
  also have "(\<lambda>i. bs ! i @ '' '' @ (if Suc i < length bs then sep_before (Suc i) else ''''))
      = (\<lambda>i. bs ! i @ '' ''
          @ (if Suc i < length bs \<and> Suc i mod 8 = 0 then '' '' else '''')
          @ (if Suc i < length bs \<and> Suc i mod 16 = 0 then ''\<newline>'' else ''''))"
    by (simp add: fun_eq_iff sep_before_def)
  finally show "raw_bytes_to_string_pretty bs =
     concat (map (\<lambda>i. bs ! i @ '' ''
                 @ (if Suc i < length bs \<and> Suc i mod 8 = 0 then '' '' else '''')
                 @ (if Suc i < length bs \<and> Suc i mod 16 = 0 then ''\<newline>'' else ''''))
       [0..<length bs])" .
next
  assume "\<forall>t \<in> set bs. t \<noteq> [] \<and> (\<forall>c \<in> set t. \<not> is_sep c)"
  from hex_tokens_prefix [OF this, of "length bs"]
  show "hex_tokens (raw_bytes_to_string_pretty bs) = bs"
    by (simp add: raw_bytes_before_form)
next
  show "raw_bytes_to_string_pretty
        [''01'', ''02'', ''03'', ''04'', ''05'', ''06'', ''07'', ''08'', ''09'', ''0a'']
       = ''01 02 03 04 05 06 07 08  09 0a ''"
    by (simp add: raw_bytes_to_string_pretty_def raw_bytes_step_def upt_rec)
qed

theorem C5_raw_bytes_layout_witness:
  "list_all (\<lambda>t. t \<noteq> [] \<and> list_all (\<lambda>c. \<not> is_sep c) t) seventeen_bytes
   \<and> hex_tokens (raw_bytes_to_string_pretty seventeen_bytes) = seventeen_bytes
   \<and> raw_bytes_to_string_pretty seventeen_bytes
       = ''00 01 02 03 04 05 06 07  08 09 0a 0b 0c 0d 0e 0f  \<newline>10 ''"
proof -
  have wf: "\<forall>t \<in> set seventeen_bytes. t \<noteq> [] \<and> (\<forall>c \<in> set t. \<not> is_sep c)"
    by (simp add: seventeen_bytes_def is_sep_def)
  have out: "raw_bytes_to_string_pretty seventeen_bytes
       = ''00 01 02 03 04 05 06 07  08 09 0a 0b 0c 0d 0e 0f  \<newline>10 ''"
    by (simp add: seventeen_bytes_def raw_bytes_to_string_pretty_def raw_bytes_step_def upt_rec)
  from C5_raw_bytes_layout [of seventeen_bytes] wf
  have "hex_tokens (raw_bytes_to_string_pretty seventeen_bytes) = seventeen_bytes"
    by blast
  with wf out show ?thesis
    by (simp add: list_all_iff)
qed

subsection \<open>C6: display names\<close>

text \<open>
  Claim C6. For every logical port name \<open>l\<close> and every lane position \<open>i\<close>, the
  display name is \<^verbatim>\<open>{l}:{i} (ganged)\<close> when the port is ganged and \<open>l\<close> unmodified
  when it is not. The positions are assigned by enumeration from 1: the raw renderer,
  whose loop runs over all lanes, names the lanes of a port of the table
  \<open>1, 2, \<dots>\<close> in resolver order. For \<^verbatim>\<open>Ethernet0\<close> on the lanes 5 and 6 the
  names are \<^verbatim>\<open>Ethernet0:1 (ganged)\<close> and \<^verbatim>\<open>Ethernet0:2 (ganged)\<close>.
\<close>

theorem C6_display_names:
  "get_physical_port_name (SStr l) (SInt i) ganged =
     Inr (SStr (if ganged then l @ '':'' @ str_int i @ '' (ganged)'' else l))
   \<and> (prefix ''Ethernet'' l \<and> is_logical_port plat l \<longrightarrow>
        port_eeprom_data_raw_string_pretty plat l =
          Inr ([], Some (concat (map
            (\<lambda>(i, p). raw_block plat
               (display_name l (length (get_logical_to_physical plat l) > 1) i) p)
            (enumerate 1 (get_logical_to_physical plat l))))))
   \<and> port_eeprom_data_raw_string_pretty example_platform ''Ethernet0'' =
       Inr ([], Some (''Ethernet0:1 (ganged): SFP EEPROM detected\<newline>01 0a \<newline>''
                    @ ''Ethernet0:2 (ganged): SFP EEPROM not detected\<newline>\<newline>''))"
proof (intro conjI impI)
  show "get_physical_port_name (SStr l) (SInt i) ganged =
     Inr (SStr (if ganged then l @ '':'' @ str_int i @ '' (ganged)'' else l))"
    by (rule port_name_str)
next
  assume "prefix ''Ethernet'' l \<and> is_logical_port plat l"
  then have r: "logical_port_name_to_physical_port_list plat l =
      Inr ([], Some (get_logical_to_physical plat l))"
    by (simp add: resolver_logical)
  have "raw_loop plat l (length (get_logical_to_physical plat l) > 1)
      (get_logical_to_physical plat l) (int 1) '''' =
      Inr ('''' @ concat (map
            (\<lambda>(i, p). raw_block plat
               (display_name l (length (get_logical_to_physical plat l) > 1) i) p)
            (enumerate 1 (get_logical_to_physical plat l))))"
    by (rule raw_loop_eq)
  with r show "port_eeprom_data_raw_string_pretty plat l =
          Inr ([], Some (concat (map
            (\<lambda>(i, p). raw_block plat
               (display_name l (length (get_logical_to_physical plat l) > 1) i) p)
            (enumerate 1 (get_logical_to_physical plat l)))))"
    by (simp add: port_eeprom_data_raw_string_pretty_def bind_err_def)
next
  show "port_eeprom_data_raw_string_pretty example_platform ''Ethernet0'' =
       Inr ([], Some (''Ethernet0:1 (ganged): SFP EEPROM detected\<newline>01 0a \<newline>''
                    @ ''Ethernet0:2 (ganged): SFP EEPROM not detected\<newline>\<newline>''))"
    by (simp add: port_eeprom_data_raw_string_pretty_def
        logical_port_name_to_physical_port_list_def example_platform_def bind_err_def
        raw_lane_def get_physical_port_name_def get_sfp_eeprom_status_string_def str_int_def eval_simps
        raw_bytes_to_string_pretty_def raw_bytes_step_def upt_rec)
qed

theorem C6_display_names_witness:
  "prefix ''Ethernet'' ''Ethernet0'' \<and> is_logical_port example_platform ''Ethernet0''
   \<and> get_logical_to_physical example_platform ''Ethernet0'' = [5, 6]
   \<and> map (\<lambda>(i, p). display_name ''Ethernet0'' True i) (enumerate 1 [5 :: int, 6])
       = [''Ethernet0:1 (ganged)'', ''Ethernet0:2 (ganged)'']
   \<and> port_eeprom_data_raw_string_pretty example_platform ''Ethernet0'' =
       Inr ([], Some (concat (map
            (\<lambda>(i, p). raw_block example_platform (display_name ''Ethernet0'' True i) p)
            (enumerate 1 [5, 6]))))"
proof -
  have h: "prefix ''Ethernet'' ''Ethernet0'' \<and> is_logical_port example_platform ''Ethernet0''"
    by (simp add: example_platform_def)
  have l: "get_logical_to_physical example_platform ''Ethernet0'' = [5, 6]"
    by (simp add: example_platform_def)
  have n: "map (\<lambda>(i, p). display_name ''Ethernet0'' True i) (enumerate 1 [5 :: int, 6])
       = [''Ethernet0:1 (ganged)'', ''Ethernet0:2 (ganged)'']"
    by (simp add: display_name_def str_int_def eval_simps)
  from C6_display_names [of "''Ethernet0''" 1 True example_platform] h l n
  show ?thesis by (simp add: display_name_def)
qed

subsection \<open>C7: the two renderings take the keys in the same order\<close>

text \<open>
  Claim C7. For every mapping, the multi-line rendering is the entries of its keys in
  ascending order, one after the other, and the one-line rendering is the comma-joined
  entries of the same ascending sequence of keys, up to its first excluded key (all of
  it when no key is excluded). The entry of a nested mapping is rendered by the same
  function, so the order is ascending at every nesting level, and it is the same
  order in both renderings.
\<close>

theorem C7_same_key_order:
  "dict_to_string_pretty d indent =
     concat (map (\<lambda>k. pretty_entry indent k (the (map_of d k))) (sorted_keys d))
   \<and> dict_to_string_comma_separated d key_blacklist elemprefix first =
       comma_join first
         (map (\<lambda>k. comma_entry key_blacklist elemprefix k (the (map_of d k)))
            (takeWhile (\<lambda>k. k \<notin> set key_blacklist) (sorted_keys d)))
   \<and> sorted (sorted_keys d) \<and> distinct (sorted_keys d)
   \<and> set (sorted_keys d) = fst ` set d"
proof (intro conjI)
  show "dict_to_string_pretty d indent =
     concat (map (\<lambda>k. pretty_entry indent k (the (map_of d k))) (sorted_keys d))"
    by (rule pretty_sorted)
  show "dict_to_string_comma_separated d key_blacklist elemprefix first =
       comma_join first
         (map (\<lambda>k. comma_entry key_blacklist elemprefix k (the (map_of d k)))
            (takeWhile (\<lambda>k. k \<notin> set key_blacklist) (sorted_keys d)))"
    by (rule comma_sorted)
qed (simp_all add: sorted_keys_def)

theorem C7_same_key_order_witness:
  "sorted_keys acme_data = [''Temp'', ''VendorName'']
   \<and> dict_to_string_pretty acme_data 1 =
       pretty_entry 1 ''Temp'' (Dict [(''High'', Scalar (SInt 70)), (''Low'', Scalar (SInt (- 5)))])
         @ pretty_entry 1 ''VendorName'' (Scalar (SStr ''ACME''))
   \<and> dict_to_string_comma_separated acme_data [] '''' True =
       comma_entry [] '''' ''Temp''
           (Dict [(''High'', Scalar (SInt 70)), (''Low'', Scalar (SInt (- 5)))])
         @ '','' @ comma_entry [] '''' ''VendorName'' (Scalar (SStr ''ACME''))"
proof -
  have k: "sorted_keys acme_data = [''Temp'', ''VendorName'']"
    by (simp add: sorted_keys_def acme_data_def)
  from C7_same_key_order [of acme_data 1 "[]" "''''" True] k show ?thesis
    by (simp add: acme_data_def)
qed

subsection \<open>C8: the resolver\<close>

text \<open>
  Claim C8, as stated: every port identifier that does not match the naming convention
  resolves to a single-element sequence. The identifier \<^verbatim>\<open>BadPort99\<close> does not start
  with \<^verbatim>\<open>Ethernet\<close>, and the resolver raises \<^verbatim>\<open>ValueError\<close> on it.
\<close>

theorem C8_counterexample:
  "\<not> prefix ''Ethernet'' ''BadPort99''
   \<and> logical_port_name_to_physical_port_list example_platform ''BadPort99'' = Inl ValueError"
  by (simp add: logical_port_name_to_physical_port_list_def bind_err_def
      py_int_def py_strip_def py_isspace_def digit_value_def)

text \<open>
  Claim C8, amended: for every port identifier that does not start with
  \<^verbatim>\<open>Ethernet\<close>, the resolver returns the single-element sequence of its integer value
  when \<^verbatim>\<open>int\<close> accepts it, and otherwise the \<^verbatim>\<open>ValueError\<close> of the conversion leaves
  the resolver. For every identifier that starts with \<^verbatim>\<open>Ethernet\<close> and is unknown to
  the port table, the resolver echoes the invalid-port line and returns \<^verbatim>\<open>None\<close>,
  never a lane list.
\<close>

theorem C8_resolver:
  "(\<not> prefix ''Ethernet'' port_name \<longrightarrow>
      logical_port_name_to_physical_port_list plat port_name =
        (case py_int port_name of
           Inr n \<Rightarrow> Inr ([], Some [n])
         | Inl e \<Rightarrow> Inl e))
   \<and> (prefix ''Ethernet'' port_name \<and> \<not> is_logical_port plat port_name \<longrightarrow>
        logical_port_name_to_physical_port_list plat port_name =
          Inr ([invalid_port port_name], None))"
  by (simp add: logical_port_name_to_physical_port_list_def bind_err_def invalid_port_def
      split: sum.splits)

theorem C8_resolver_witness:
  "\<not> prefix ''Ethernet'' ''17'' \<and> py_int ''17'' = Inr 17
   \<and> logical_port_name_to_physical_port_list example_platform ''17'' = Inr ([], Some [17])
   \<and> prefix ''Ethernet'' ''Ethernet4'' \<and> \<not> is_logical_port example_platform ''Ethernet4''
   \<and> logical_port_name_to_physical_port_list example_platform ''Ethernet4'' =
        Inr ([''Error: Invalid port '' @ [CHR 0x27] @ ''Ethernet4'' @ [CHR 0x27]], None)"
proof -
  have a: "\<not> prefix ''Ethernet'' ''17''" by simp
  have b: "py_int ''17'' = Inr 17"
    by (simp add: py_int_def py_strip_def py_isspace_def digit_value_def)
  have c: "prefix ''Ethernet'' ''Ethernet4'' \<and> \<not> is_logical_port example_platform ''Ethernet4''"
    by (simp add: example_platform_def)
  from C8_resolver [of "''17''" example_platform] C8_resolver [of "''Ethernet4''" example_platform]
    a b c
  show ?thesis by (simp add: invalid_port_def)
qed

subsection \<open>C9: rendering leaves its input unchanged\<close>

text \<open>
  Claim C9. None of the three printing functions changes the object it is given. On
  the store: whenever the multi-line or the one-line printer returns, the store it
  leaves is the store it was given with fresh objects added at the end, so every
  object that existed before the call, the input and all it refers to, is unchanged;
  the raw printer leaves the store as it was. The store versions return what the
  printers compute: when the input address holds a dictionary of value \<open>d\<close>, some
  bound on the depth suffices, the text is that of \<^verbatim>\<open>dict_to_string_pretty\<close> (of
  \<^verbatim>\<open>dict_to_string_comma_separated\<close>) on \<open>d\<close>, and the address still holds a
  dictionary of value \<open>d\<close> afterwards; and the raw printer returns the text of
  \<^verbatim>\<open>raw_bytes_to_string_pretty\<close> on the list at the input address.
\<close>

theorem C9_rendering_preserves_input:
  "(dict_to_string_pretty_h fuel h a indent = Some (h1, s1) \<longrightarrow> prefix h h1)
   \<and> (dict_to_string_comma_separated_h fuel h a key_blacklist elemprefix first = Some (h2, s2)
        \<longrightarrow> prefix h h2)
   \<and> (raw_bytes_to_string_pretty_h h b = Some (h3, s3) \<longrightarrow> h3 = h)
   \<and> (dict_at h a d \<longrightarrow>
        (\<exists>n h'. dict_to_string_pretty_h n h a indent = Some (h', dict_to_string_pretty d indent)
                \<and> dict_at h' a d)
        \<and> (\<exists>n h'. dict_to_string_comma_separated_h n h a key_blacklist elemprefix first =
                     Some (h', dict_to_string_comma_separated d key_blacklist elemprefix first)
                \<and> dict_at h' a d))
   \<and> (lookup_list h b = Some bs \<longrightarrow>
        raw_bytes_to_string_pretty_h h b = Some (h, raw_bytes_to_string_pretty bs))"
proof (intro conjI impI)
  assume "dict_to_string_pretty_h fuel h a indent = Some (h1, s1)"
  then show "prefix h h1" by (rule pretty_h_frame)
next
  assume "dict_to_string_comma_separated_h fuel h a key_blacklist elemprefix first = Some (h2, s2)"
  then show "prefix h h2" by (rule comma_h_frame)
next
  assume "raw_bytes_to_string_pretty_h h b = Some (h3, s3)"
  then show "h3 = h" by (rule raw_h_frame)
next
  assume at: "dict_at h a d"
  then obtain n h' where
    r: "dict_to_string_pretty_h n h a indent = Some (h', dict_to_string_pretty d indent)"
    using pretty_h_adequate by blast
  then have "prefix h h'" by (rule pretty_h_frame)
  then have "dict_at h' a d" using at by (rule dict_at_prefix)
  with r show "\<exists>n h'. dict_to_string_pretty_h n h a indent =
      Some (h', dict_to_string_pretty d indent) \<and> dict_at h' a d"
    by blast
next
  assume at: "dict_at h a d"
  then obtain n h' where
    r: "dict_to_string_comma_separated_h n h a key_blacklist elemprefix first =
      Some (h', dict_to_string_comma_separated d key_blacklist elemprefix first)"
    using comma_h_adequate by blast
  then have "prefix h h'" by (rule comma_h_frame)
  then have "dict_at h' a d" using at by (rule dict_at_prefix)
  with r show "\<exists>n h'. dict_to_string_comma_separated_h n h a key_blacklist elemprefix first =
      Some (h', dict_to_string_comma_separated d key_blacklist elemprefix first)
      \<and> dict_at h' a d"
    by blast
next
  assume "lookup_list h b = Some bs"
  then show "raw_bytes_to_string_pretty_h h b = Some (h, raw_bytes_to_string_pretty bs)"
    by (rule raw_h_eq)
qed

theorem C9_rendering_preserves_input_witness:
  "dict_at example_heap 0 acme_data
   \<and> dict_to_string_pretty_h 4 example_heap 0 1 =
       Some (example_heap @
               [DictObj [(''Low'', HScalar (SInt (- 5)))], DictObj [],
                DictObj [(''VendorName'', HScalar (SStr ''ACME''))], DictObj []],
             dict_to_string_pretty acme_data 1)
   \<and> prefix example_heap
         (example_heap @
            [DictObj [(''Low'', HScalar (SInt (- 5)))], DictObj [],
             DictObj [(''VendorName'', HScalar (SStr ''ACME''))], DictObj []])
   \<and> (\<exists>n h'. dict_to_string_comma_separated_h n example_heap 0 ifdata_out_blacklist '''' True =
               Some (h', dict_to_string_comma_separated acme_data ifdata_out_blacklist '''' True)
             \<and> dict_at h' 0 acme_data)
   \<and> lookup_list example_heap 2 = Some [''01'', ''0a'']
   \<and> raw_bytes_to_string_pretty_h example_heap 2 = Some (example_heap, ''01 0a '')"
proof -
  have a: "dict_at example_heap 0 acme_data"
    by code_simp
  have b: "dict_to_string_pretty_h 4 example_heap 0 1 =
       Some (example_heap @
               [DictObj [(''Low'', HScalar (SInt (- 5)))], DictObj [],
                DictObj [(''VendorName'', HScalar (SStr ''ACME''))], DictObj []],
             dict_to_string_pretty acme_data 1)"
    by code_simp
  have c: "lookup_list example_heap 2 = Some [''01'', ''0a'']"
    by code_simp
  have d: "raw_bytes_to_string_pretty [''01'', ''0a''] = ''01 0a ''"
    by code_simp
  note t = C9_rendering_preserves_input
    [where h = example_heap and a = 0 and b = 2 and d = acme_data and fuel = 4
       and indent = 1 and bs = "[''01'', ''0a'']"
       and key_blacklist = ifdata_out_blacklist and elemprefix = "''''" and first = True
       and ?h1.0 = "example_heap @
               [DictObj [(''Low'', HScalar (SInt (- 5)))], DictObj [],
                DictObj [(''VendorName'', HScalar (SStr ''ACME''))], DictObj []]"
       and ?s1.0 = "dict_to_string_pretty acme_data 1"]
  from t a b c d show ?thesis by simp
qed

subsection \<open>C10: the value of the multi-line renderer\<close>

text \<open>
  Claim C10. When the resolver yields the empty lane list, the pretty multi-line
  renderer returns \<^verbatim>\<open>None\<close>. When it yields a non-empty lane list, the renderer never
  returns \<^verbatim>\<open>None\<close>: the call either leaves with an exception (a record that is not
  readable) or returns a string, and it returns the block of the first lane whenever
  that lane is readable.
\<close>

theorem C10_pretty_none_on_empty:
  "(logical_port_name_to_physical_port_list plat l = Inr (echo, Some []) \<longrightarrow>
      port_eeprom_data_string_pretty plat l dump_dom = Inr (echo, None))
   \<and> (logical_port_name_to_physical_port_list plat l = Inr (echo, Some (p # rest)) \<longrightarrow>
        (\<forall>e. port_eeprom_data_string_pretty plat l dump_dom \<noteq> Inr (e, None))
        \<and> (lane_readable plat dump_dom p \<longrightarrow>
             port_eeprom_data_string_pretty plat l dump_dom =
               Inr (echo, Some (pretty_block plat (display_name l (rest \<noteq> []) 1) dump_dom p))))"
proof (intro conjI impI allI)
  assume "logical_port_name_to_physical_port_list plat l = Inr (echo, Some [])"
  from resolver_cases [OF this] show "port_eeprom_data_string_pretty plat l dump_dom = Inr (echo, None)"
    by simp
next
  fix e
  assume "logical_port_name_to_physical_port_list plat l = Inr (echo, Some (p # rest))"
  from resolver_cases [OF this, of dump_dom]
  show "port_eeprom_data_string_pretty plat l dump_dom \<noteq> Inr (e, None)"
    by (simp add: bind_err_def split: sum.splits)
next
  assume r: "logical_port_name_to_physical_port_list plat l = Inr (echo, Some (p # rest))"
    and ok: "lane_readable plat dump_dom p"
  from resolver_cases [OF r, of dump_dom] pretty_lane_eq [OF ok, of l "rest \<noteq> []" 1 "''''"]
  show "port_eeprom_data_string_pretty plat l dump_dom =
      Inr (echo, Some (pretty_block plat (display_name l (rest \<noteq> []) 1) dump_dom p))"
    by (simp add: bind_err_def)
qed

theorem C10_pretty_none_on_empty_witness:
  "logical_port_name_to_physical_port_list example_platform ''Ethernet8'' = Inr ([], Some [])
   \<and> port_eeprom_data_string_pretty example_platform ''Ethernet8'' False = Inr ([], None)
   \<and> logical_port_name_to_physical_port_list example_platform ''6'' = Inr ([], Some (6 # []))
   \<and> lane_readable example_platform False 6
   \<and> port_eeprom_data_string_pretty example_platform ''6'' False =
        Inr ([], Some ''6: SFP EEPROM not detected\<newline>\<newline>'')"
proof -
  have a: "logical_port_name_to_physical_port_list example_platform ''Ethernet8'' =
      Inr ([], Some [])"
    by (simp add: logical_port_name_to_physical_port_list_def example_platform_def)
  have b: "logical_port_name_to_physical_port_list example_platform ''6'' =
      Inr ([], Some (6 # []))"
    by (simp add: logical_port_name_to_physical_port_list_def bind_err_def
        py_int_def py_strip_def py_isspace_def digit_value_def)
  have c: "lane_readable example_platform False 6"
    by (simp add: lane_readable_def lane_eeprom_dict_def example_platform_def)
  have d: "pretty_block example_platform (display_name ''6'' ([] \<noteq> ([] :: int list)) 1) False 6
      = ''6: SFP EEPROM not detected\<newline>\<newline>''"
    by (simp add: pretty_block_def lane_eeprom_dict_def example_platform_def display_name_def)
  from C10_pretty_none_on_empty
      [where plat = example_platform and l = "''Ethernet8''" and echo = "[]"
        and dump_dom = False] a
  have e: "port_eeprom_data_string_pretty example_platform ''Ethernet8'' False = Inr ([], None)"
    by blast
  from C10_pretty_none_on_empty
      [where plat = example_platform and l = "''6''" and echo = "[]"
        and dump_dom = False and p = 6 and rest = "[]"] b c
  have "port_eeprom_data_string_pretty example_platform ''6'' False =
      Inr ([], Some (pretty_block example_platform
        (display_name ''6'' ([] \<noteq> ([] :: int list)) 1) False 6))"
    by blast
  with a b c d e show ?thesis by simp
qed

end
